theory Spec2Isabelle
  imports Main "HOL-Library.Word"
begin

unbundle bit_operations_syntax

section \<open>The host simulator as seen by the chip\<close>

text \<open>
  Modelled from the spec: the types of the simulator interface. The chip model in
  \<^verbatim>\<open>src/pca9535.chip.c\<close> talks to the simulator through the pin and I2C calls
  declared in \<^verbatim>\<open>wokwi-api.h\<close>. That header belongs to the simulator and is not among
  the sources, so the part of the simulator the chip can observe is a record: for
  every pin handle its mode, its digital level and the watch registered on it, the
  text printed so far, and the I2C devices registered.
\<close>

type_synonym pin_t = "32 word"

datatype mode_t = INPUT | OUTPUT | INPUT_PULLUP | INPUT_PULLDOWN | ANALOG | OUTPUT_LOW | OUTPUT_HIGH

datatype edge_t = RISING | FALLING | BOTH

text \<open>The two functions of the chip that are ever stored in a \<^verbatim>\<open>pin_change\<close> pointer.\<close>

datatype pin_change_t = Chip_addr_change | Chip_input_io_change

record pin_watch_config_t =
  edge :: edge_t
  pin_change :: pin_change_t

record i2c_config_t =
  i2c_address :: "32 word"
  scl :: pin_t
  sda :: pin_t

text \<open>One constructor for each \<^verbatim>\<open>printf\<close> of the source, with the values it prints.\<close>

datatype log_msg =
    Msg_INT_flag_SET
  | Msg_Getting_connects "32 word" "8 word"
  | Msg_Read_reset_INT_flag
  | Msg_Input_mask_is_now "16 word"
  | Msg_Chip_LSB_bits "8 word" "8 word"
  | Msg_IO_input_changed
  | Msg_INPUTVALUE string "16 word"
  | Msg_newline
  | Msg_I2C_initialized "8 word"

record host_t =
  pin_handle :: "string \<Rightarrow> pin_t"
  pin_modes :: "pin_t \<Rightarrow> mode_t"
  pin_levels :: "pin_t \<Rightarrow> 32 word"
  pin_watches :: "pin_t \<Rightarrow> pin_watch_config_t option"
  i2c_devs :: "i2c_config_t list"
  stdout :: "log_msg list"

text \<open>
  Modelled from the spec: the simulator's pin abstraction (``electrical state of a
  named pin, edge-triggered change notification''), whose implementation is outside
  the repository. \<open>pin_init\<close> looks the named pin up and sets its mode, \<open>pin_mode\<close>
  sets the mode, \<open>pin_read\<close> returns the level, \<open>pin_watch\<close> registers a watch
  unless the pin is already watched, \<open>pin_watch_stop\<close> removes it. The chip ignores
  the result of \<open>pin_watch\<close>, so only the new host state is returned.
\<close>

definition pin_init :: "string \<Rightarrow> mode_t \<Rightarrow> host_t \<Rightarrow> pin_t \<times> host_t" where
  "pin_init name m h = (pin_handle h name, h\<lparr>pin_modes := (pin_modes h)(pin_handle h name := m)\<rparr>)"

definition pin_mode :: "pin_t \<Rightarrow> mode_t \<Rightarrow> host_t \<Rightarrow> host_t" where
  "pin_mode p m h = h\<lparr>pin_modes := (pin_modes h)(p := m)\<rparr>"

definition pin_read :: "pin_t \<Rightarrow> host_t \<Rightarrow> 32 word" where
  "pin_read p h = pin_levels h p"

definition pin_watch :: "pin_t \<Rightarrow> pin_watch_config_t \<Rightarrow> host_t \<Rightarrow> host_t" where
  "pin_watch p cfg h =
     (if pin_watches h p = None then h\<lparr>pin_watches := (pin_watches h)(p \<mapsto> cfg)\<rparr> else h)"

definition pin_watch_stop :: "pin_t \<Rightarrow> host_t \<Rightarrow> host_t" where
  "pin_watch_stop p h = h\<lparr>pin_watches := (pin_watches h)(p := None)\<rparr>"

definition i2c_init :: "i2c_config_t \<Rightarrow> host_t \<Rightarrow> 32 word \<times> host_t" where
  "i2c_init cfg h = (of_nat (length (i2c_devs h)), h\<lparr>i2c_devs := i2c_devs h @ [cfg]\<rparr>)"

definition printf :: "log_msg \<Rightarrow> host_t \<Rightarrow> host_t" where
  "printf msg h = h\<lparr>stdout := stdout h @ [msg]\<rparr>"

section \<open>The chip state\<close>

abbreviation I2C_BASE_ADDRESS :: "8 word" where "I2C_BASE_ADDRESS \<equiv> 0x20"
abbreviation NUM_GPIO :: nat where "NUM_GPIO \<equiv> 16"
abbreviation NUM_ADDR_BITS :: nat where "NUM_ADDR_BITS \<equiv> 3"

text \<open>
  \<^verbatim>\<open>chip_state_t\<close>. The arrays \<^verbatim>\<open>addressBits[3]\<close> and \<^verbatim>\<open>io[16]\<close> are lists; that
  they have 3 and 16 entries is part of \<open>chip_ok\<close> below. The callback pointers and
  \<^verbatim>\<open>user_data\<close> of the two configuration structs always point at the functions and
  the state modelled here and are left out.
\<close>

record chip_state_t =
  address :: "8 word"
  addressBits :: "pin_t list"
  nINT :: pin_t
  io :: "pin_t list"
  inputMask :: "16 word"
  inputValue :: "16 word"
  lastReadValue :: "16 word"
  i2c_dev :: "32 word"
  i2c_config :: i2c_config_t
  i2c_portcount :: "8 word"
  io_watch_config :: pin_watch_config_t

type_synonym world = "chip_state_t \<times> host_t"

text \<open>
  What the C types and \<^verbatim>\<open>chip_init\<close> guarantee about the pin handles: the arrays
  have their declared sizes and no handle occurs twice.
\<close>

definition chip_ok :: "chip_state_t \<Rightarrow> bool" where
  "chip_ok chip \<longleftrightarrow>
     length (io chip) = NUM_GPIO \<and> length (addressBits chip) = NUM_ADDR_BITS \<and>
     distinct (nINT chip # io chip @ addressBits chip)"

section \<open>Interrupt flag and port counter\<close>

definition interruptFlagOff :: "chip_state_t \<Rightarrow> host_t \<Rightarrow> host_t" where
  "interruptFlagOff chip h = pin_mode (nINT chip) INPUT h"

definition interruptFlagOn :: "chip_state_t \<Rightarrow> host_t \<Rightarrow> host_t" where
  "interruptFlagOn chip h = printf Msg_INT_flag_SET (pin_mode (nINT chip) OUTPUT_LOW h)"

definition incrementPortCount :: "chip_state_t \<Rightarrow> chip_state_t" where
  "incrementPortCount chip =
     (if i2c_portcount chip \<noteq> 0 then chip\<lparr>i2c_portcount := 0\<rparr>
      else chip\<lparr>i2c_portcount := 1\<rparr>)"

section \<open>I2C callbacks\<close>

fun on_i2c_connect :: "world \<Rightarrow> 32 word \<Rightarrow> bool \<Rightarrow> bool \<times> world" where
  "on_i2c_connect (chip, h) addr rd =
     (let h1 = (if addr \<noteq> ucast (address chip)
                then printf (Msg_Getting_connects addr (address chip)) h else h);
          chip1 = chip\<lparr>i2c_portcount := 0\<rparr>
      in if rd
         then (let h2 = printf Msg_Read_reset_INT_flag h1;
                   chip2 = chip1\<lparr>lastReadValue := inputValue chip1\<rparr>
               in (True, chip2, interruptFlagOff chip2 h2))
         else (True, chip1, h1))"

text \<open>
  \<^verbatim>\<open>(chip->inputValue >> (chip->i2c_portcount*8)) & 0xff\<close> is computed on \<^verbatim>\<open>int\<close>; a
  shift by 32 or more is undefined in C, which is the result \<open>None\<close>.
\<close>

fun on_i2c_read :: "world \<Rightarrow> (8 word \<times> world) option" where
  "on_i2c_read (chip, h) =
     (if unat (i2c_portcount chip) * 8 < 32
      then (let retVal = (ucast (drop_bit (unat (i2c_portcount chip) * 8)
                                   (ucast (inputValue chip) :: 32 word) AND 0xff) :: 8 word)
            in Some (retVal, incrementPortCount chip, h))
      else None)"

text \<open>
  The body of the loop of \<^verbatim>\<open>on_i2c_write\<close> for one \<open>i\<close>. \<^verbatim>\<open>bitIdx\<close> is a
  \<^verbatim>\<open>uint8_t\<close>; an index outside \<^verbatim>\<open>io[16]\<close> is undefined in C, the result \<open>None\<close>.
\<close>

fun on_i2c_write_body :: "nat \<Rightarrow> 8 word \<Rightarrow> world \<Rightarrow> world option" where
  "on_i2c_write_body i data (chip, h) =
     (let bitIdx = (of_nat i + i2c_portcount chip * 8 :: 8 word)
      in if unat bitIdx < NUM_GPIO
         then (let targetPin = io chip ! unat bitIdx;
                   h1 = pin_watch_stop targetPin h
               in if (ucast data :: 32 word) AND push_bit i 1 \<noteq> 0
                  then Some (chip\<lparr>inputMask := inputMask chip OR
                                     ucast (push_bit (unat bitIdx) (1 :: 32 word))\<rparr>,
                             pin_watch targetPin (io_watch_config chip)
                               (pin_mode targetPin INPUT_PULLUP h1))
                  else Some (chip, pin_mode targetPin OUTPUT_LOW h1))
         else None)"

function on_i2c_write_loop :: "nat \<Rightarrow> 8 word \<Rightarrow> world \<Rightarrow> world option" where
  "on_i2c_write_loop i data s =
     (if i < 8
      then (case on_i2c_write_body i data s of
              None \<Rightarrow> None
            | Some s' \<Rightarrow> on_i2c_write_loop (Suc i) data s')
      else Some s)"
  by pat_completeness auto
termination
  by (relation "measure (\<lambda>(i, data, s). 8 - i)") auto

fun on_i2c_write :: "world \<Rightarrow> 8 word \<Rightarrow> (bool \<times> world) option" where
  "on_i2c_write (chip, h) data =
     (let chip1 = (if i2c_portcount chip = 0 then chip\<lparr>inputMask := 0\<rparr> else chip)
      in case on_i2c_write_loop 0 data (chip1, h) of
           None \<Rightarrow> None
         | Some (chip2, h2) \<Rightarrow>
             (let h3 = (if i2c_portcount chip2 \<noteq> 0
                        then printf (Msg_Input_mask_is_now (inputMask chip2)) h2 else h2)
              in Some (True, incrementPortCount chip2, h3)))"

fun on_i2c_disconnect :: "world \<Rightarrow> world" where
  "on_i2c_disconnect (chip, h) = (chip, h)"

section \<open>Address management\<close>

function read_address_loop :: "nat \<Rightarrow> chip_state_t \<Rightarrow> host_t \<Rightarrow> 8 word \<Rightarrow> 8 word" where
  "read_address_loop i chip h lsbits =
     (if i < NUM_ADDR_BITS
      then read_address_loop (Suc i) chip h
             (if pin_read (addressBits chip ! i) h \<noteq> 0
              then lsbits OR ucast (push_bit i (1 :: 32 word)) else lsbits)
      else lsbits)"
  by pat_completeness auto
termination
  by (relation "measure (\<lambda>(i, chip, h, lsbits). NUM_ADDR_BITS - i)") auto

definition read_address :: "chip_state_t \<Rightarrow> host_t \<Rightarrow> 8 word \<times> host_t" where
  "read_address chip h =
     (let lsbits = read_address_loop 0 chip h 0;
          configuredAddress = I2C_BASE_ADDRESS OR lsbits
      in (configuredAddress, printf (Msg_Chip_LSB_bits lsbits configuredAddress) h))"

fun chip_addr_change :: "world \<Rightarrow> pin_t \<Rightarrow> 32 word \<Rightarrow> world" where
  "chip_addr_change (chip, h) pin val =
     (case read_address chip h of (a, h1) \<Rightarrow> (chip\<lparr>address := a\<rparr>, h1))"

section \<open>Input lines and the interrupt\<close>

function readInputsValue_loop :: "nat \<Rightarrow> chip_state_t \<Rightarrow> host_t \<Rightarrow> 16 word \<Rightarrow> 16 word" where
  "readInputsValue_loop i chip h inputsValue =
     (if i < NUM_GPIO
      then readInputsValue_loop (Suc i) chip h
             (if (ucast (inputMask chip) :: 32 word) AND push_bit i 1 \<noteq> 0
              then (if pin_read (io chip ! i) h \<noteq> 0
                    then inputsValue OR ucast (push_bit i (1 :: 32 word)) else inputsValue)
              else inputsValue)
      else inputsValue)"
  by pat_completeness auto
termination
  by (relation "measure (\<lambda>(i, chip, h, inputsValue). NUM_GPIO - i)") auto

definition readInputsValue :: "chip_state_t \<Rightarrow> host_t \<Rightarrow> 16 word" where
  "readInputsValue chip h = readInputsValue_loop 0 chip h 0"

fun chip_input_io_change :: "world \<Rightarrow> pin_t \<Rightarrow> 32 word \<Rightarrow> world" where
  "chip_input_io_change (chip, h) pin val =
     (let chip1 = chip\<lparr>inputValue := readInputsValue chip h\<rparr>;
          h1 = (if inputValue chip1 \<noteq> lastReadValue chip1
                then interruptFlagOn chip1 h else interruptFlagOff chip1 h);
          h2 = printf Msg_IO_input_changed h1;
          h3 = printf (Msg_INPUTVALUE ''from'' (lastReadValue chip1)) h2;
          h4 = printf (Msg_INPUTVALUE ''to'' (inputValue chip1)) h3
      in (chip1, printf Msg_newline h4))"

section \<open>Initialization\<close>

fun initialize_state :: "world \<Rightarrow> world" where
  "initialize_state (chip, h) =
     (let chip1 = chip\<lparr>address := I2C_BASE_ADDRESS\<rparr>;
          chip2 = chip1\<lparr>inputMask := 0xffff\<rparr>;
          chip3 = chip2\<lparr>inputValue := 0xffff\<rparr>;
          chip4 = chip3\<lparr>i2c_portcount := 0\<rparr>;
          chip5 = chip4\<lparr>io_watch_config := \<lparr>edge = BOTH, pin_change = Chip_input_io_change\<rparr>\<rparr>
      in case pin_init ''SCL'' INPUT_PULLUP h of (p_scl, h1) \<Rightarrow>
         case pin_init ''SDA'' INPUT_PULLUP h1 of (p_sda, h2) \<Rightarrow>
           (chip5\<lparr>i2c_config := (i2c_config chip5)\<lparr>scl := p_scl, sda := p_sda\<rparr>\<rparr>, h2))"

definition addrPinNames :: "string list" where
  "addrPinNames = [''A0'', ''A1'', ''A2'']"

definition ioPinNames :: "string list" where
  "ioPinNames = [''P00'', ''P01'', ''P02'', ''P03'', ''P04'', ''P05'', ''P06'', ''P07'',
                 ''P10'', ''P11'', ''P12'', ''P13'', ''P14'', ''P15'', ''P16'', ''P17'']"

definition watch_addr_config :: pin_watch_config_t where
  "watch_addr_config = \<lparr>edge = BOTH, pin_change = Chip_addr_change\<rparr>"

function chip_init_addr_loop :: "nat \<Rightarrow> world \<Rightarrow> world" where
  "chip_init_addr_loop i s =
     (if i < NUM_ADDR_BITS
      then (case s of (chip, h) \<Rightarrow>
              case pin_init (addrPinNames ! i) INPUT h of (p, h1) \<Rightarrow>
                (let chip1 = chip\<lparr>addressBits := (addressBits chip)[i := p]\<rparr>
                 in chip_init_addr_loop (Suc i)
                      (chip1, pin_watch (addressBits chip1 ! i) watch_addr_config h1)))
      else s)"
  by pat_completeness auto
termination
  by (relation "measure (\<lambda>(i, s). NUM_ADDR_BITS - i)") auto

function chip_init_io_loop :: "nat \<Rightarrow> world \<Rightarrow> world" where
  "chip_init_io_loop i s =
     (if i < NUM_GPIO
      then (case s of (chip, h) \<Rightarrow>
              case pin_init (ioPinNames ! i) INPUT_PULLUP h of (p, h1) \<Rightarrow>
                (let chip1 = chip\<lparr>io := (io chip)[i := p]\<rparr>
                 in chip_init_io_loop (Suc i)
                      (chip1, pin_watch (io chip1 ! i) (io_watch_config chip1) h1)))
      else s)"
  by pat_completeness auto
termination
  by (relation "measure (\<lambda>(i, s). NUM_GPIO - i)") auto

text \<open>
  \<^verbatim>\<open>chip_init\<close> allocates the state with \<^verbatim>\<open>malloc\<close> and does not test the result.
  The argument is the block \<^verbatim>\<open>malloc\<close> returned, with whatever contents it happens
  to have, or \<open>None\<close> for a null pointer, whose dereference is undefined.
\<close>

fun chip_init :: "chip_state_t option \<Rightarrow> host_t \<Rightarrow> world option" where
  "chip_init None h = None"
| "chip_init (Some raw) h =
     (case initialize_state (raw, h) of (chip1, h1) \<Rightarrow>
      case pin_init ''nINT'' INPUT h1 of (p, h2) \<Rightarrow>
      case chip_init_addr_loop 0 (chip1\<lparr>nINT := p\<rparr>, h2) of (chip3, h3) \<Rightarrow>
      case chip_init_io_loop 0 (chip3, h3) of (chip4, h4) \<Rightarrow>
        (let chip5 = chip4\<lparr>inputMask := 0xffff\<rparr> in
         case read_address chip5 h4 of (a, h5) \<Rightarrow>
           (let chip6 = chip5\<lparr>address := a\<rparr>;
                chip7 = chip6\<lparr>i2c_config := (i2c_config chip6)\<lparr>i2c_address := ucast (address chip6)\<rparr>\<rparr>
            in case i2c_init (i2c_config chip7) h5 of (dev, h6) \<Rightarrow>
                 (let chip8 = chip7\<lparr>i2c_dev := dev\<rparr>;
                      h7 = printf (Msg_I2C_initialized (address chip8)) h6
                  in Some (chip8, interruptFlagOff chip8 h7)))))"

section \<open>A concrete powered-up chip\<close>

text \<open>
  A chip as \<^verbatim>\<open>chip_init\<close> leaves it on a host that numbers the pins \<^verbatim>\<open>P00\<close> to
  \<^verbatim>\<open>P17\<close> from 0 to 15, \<^verbatim>\<open>nINT\<close> 16, \<^verbatim>\<open>A0\<close> to \<^verbatim>\<open>A2\<close> 17 to 19, \<^verbatim>\<open>SCL\<close> 20 and
  \<^verbatim>\<open>SDA\<close> 21, with all I/O lines high and all address lines low. It is the concrete
  input at which the theorems below are instantiated.
\<close>

definition example_chip :: chip_state_t where
  "example_chip =
     \<lparr>address = 0x20, addressBits = [17, 18, 19], nINT = 16,
      io = [0, 1, 2, 3, 4, 5, 6, 7, 8, 9, 10, 11, 12, 13, 14, 15],
      inputMask = 0xffff, inputValue = 0xffff, lastReadValue = 0xffff, i2c_dev = 0,
      i2c_config = \<lparr>i2c_address = 0x20, scl = 20, sda = 21\<rparr>,
      i2c_portcount = 0,
      io_watch_config = \<lparr>edge = BOTH, pin_change = Chip_input_io_change\<rparr>\<rparr>"

definition example_handle :: "string \<Rightarrow> pin_t" where
  "example_handle name =
     of_nat (length (takeWhile (\<lambda>n. n \<noteq> name)
                       (ioPinNames @ [''nINT''] @ addrPinNames @ [''SCL'', ''SDA''])))"

definition example_host :: host_t where
  "example_host =
     \<lparr>pin_handle = example_handle,
      pin_modes = (\<lambda>p. if p < 16 \<or> 20 \<le> p then INPUT_PULLUP else INPUT),
      pin_levels = (\<lambda>p. if p < 16 then 1 else 0),
      pin_watches = (\<lambda>p. if p < 16 then Some \<lparr>edge = BOTH, pin_change = Chip_input_io_change\<rparr>
                          else if 17 \<le> p \<and> p \<le> 19 then Some watch_addr_config else None),
      i2c_devs = [\<lparr>i2c_address = 0x20, scl = 20, sda = 21\<rparr>],
      stdout = [Msg_Chip_LSB_bits 0 0x20, Msg_I2C_initialized 0x20]\<rparr>"

text \<open>
  The powered-up chip after the bus master has written the single byte \<open>0xFF\<close>, and
  after it has written the two bytes \<open>0x01\<close>, \<open>0x00\<close> (line 0 monitored, lines 1 to
  15 driven low).
\<close>

definition example_first_byte :: world where
  "example_first_byte = snd (the (on_i2c_write (example_chip, example_host) 0xFF))"

definition example_outputs :: world where
  "example_outputs =
     snd (the (on_i2c_write (snd (the (on_i2c_write (example_chip, example_host) 0x01))) 0x00))"

section \<open>Word and bit facts used by the callbacks\<close>

lemma portcount_cases: "(p :: 8 word) \<le> 1 \<Longrightarrow> p = 0 \<or> p = 1"
  by (metis word_le_less_eq word_less_1)

lemma bitIdx_unat:
  assumes "(p :: 8 word) \<le> 1" "i < 8"
  shows "unat (of_nat i + p * 8 :: 8 word) = i + 8 * unat p"
proof -
  from assms(1) have "p = 0 \<or> p = 1" by (rule portcount_cases)
  then show ?thesis
  proof
    assume "p = 0" with assms(2) show ?thesis by (simp add: unat_of_nat)
  next
    assume p: "p = 1"
    have "(of_nat i + 8 :: 8 word) = of_nat (i + 8)" by simp
    moreover have "unat (of_nat (i + 8) :: 8 word) = i + 8"
      using assms(2) by (simp add: unat_of_nat del: of_nat_add)
    ultimately show ?thesis using p by simp
  qed
qed

lemma bit_or_exp16:
  "bit ((m :: 16 word) OR ucast (2 ^ n :: 32 word)) k \<longleftrightarrow> bit m k \<or> (k = n \<and> n < 16)"
  by (auto simp add: bit_simps)

lemma on_i2c_write_body_eq:
  assumes "i2c_portcount chip \<le> 1" "i < 8"
  shows "on_i2c_write_body i data (chip, h) =
     Some (if bit data i
           then (chip\<lparr>inputMask := inputMask chip OR ucast (push_bit (i + 8 * unat (i2c_portcount chip)) (1 :: 32 word))\<rparr>,
                 h\<lparr>pin_modes := (pin_modes h)(io chip ! (i + 8 * unat (i2c_portcount chip)) := INPUT_PULLUP),
                   pin_watches := (pin_watches h)(io chip ! (i + 8 * unat (i2c_portcount chip)) \<mapsto> io_watch_config chip)\<rparr>)
           else (chip,
                 h\<lparr>pin_modes := (pin_modes h)(io chip ! (i + 8 * unat (i2c_portcount chip)) := OUTPUT_LOW),
                   pin_watches := (pin_watches h)(io chip ! (i + 8 * unat (i2c_portcount chip)) := None)\<rparr>))"
proof -
  have u: "unat (of_nat i + i2c_portcount chip * 8 :: 8 word) = i + 8 * unat (i2c_portcount chip)"
    using assms by (rule bitIdx_unat)
  have "unat (i2c_portcount chip) \<le> 1" using assms(1) by (simp add: word_le_nat_alt)
  with assms(2) have lt: "i + 8 * unat (i2c_portcount chip) < 16" by simp
  show ?thesis
    using lt assms(2)
    by (simp add: u Let_def and_exp_eq_0_iff_not_bit bit_ucast_iff pin_watch_stop_def pin_watch_def pin_mode_def)
qed


lemma on_i2c_write_loop_char:
  assumes "i2c_portcount chip \<le> 1" "length (io chip) = NUM_GPIO" "distinct (io chip)"
  shows "\<exists>chip' h'. on_i2c_write_loop i data (chip, h) = Some (chip', h') \<and>
      chip' = chip\<lparr>inputMask := inputMask chip'\<rparr> \<and>
      (\<forall>k. bit (inputMask chip') k \<longleftrightarrow>
         bit (inputMask chip) k \<or>
         (\<exists>j. i \<le> j \<and> j < 8 \<and> k = j + 8 * unat (i2c_portcount chip) \<and> bit data j)) \<and>
      h' = h\<lparr>pin_modes := pin_modes h', pin_watches := pin_watches h'\<rparr> \<and>
      (\<forall>j. i \<le> j \<and> j < 8 \<longrightarrow>
         pin_modes h' (io chip ! (j + 8 * unat (i2c_portcount chip))) =
           (if bit data j then INPUT_PULLUP else OUTPUT_LOW) \<and>
         pin_watches h' (io chip ! (j + 8 * unat (i2c_portcount chip))) =
           (if bit data j then Some (io_watch_config chip) else None)) \<and>
      (\<forall>q. (\<forall>j. i \<le> j \<and> j < 8 \<longrightarrow> q \<noteq> io chip ! (j + 8 * unat (i2c_portcount chip))) \<longrightarrow>
         pin_modes h' q = pin_modes h q \<and> pin_watches h' q = pin_watches h q)"
  using assms
proof (induction "8 - i" arbitrary: i chip h)
  case 0
  then have "\<not> i < 8" by simp
  then show ?case
    by (subst on_i2c_write_loop.simps) auto
next
  case (Suc n)
  let ?p = "unat (i2c_portcount chip)"
  let ?pin = "\<lambda>j. io chip ! (j + 8 * ?p)"
  from Suc.hyps(2) have i8: "i < 8" by simp
  have ple: "?p \<le> 1" using Suc.prems(1) by (simp add: word_le_nat_alt)
  define chip1 where "chip1 = (if bit data i
      then chip\<lparr>inputMask := inputMask chip OR ucast (push_bit (i + 8 * ?p) (1 :: 32 word))\<rparr>
      else chip)"
  define h1 where "h1 = h\<lparr>pin_modes := (pin_modes h)(?pin i := (if bit data i then INPUT_PULLUP else OUTPUT_LOW)),
      pin_watches := (pin_watches h)(?pin i := (if bit data i then Some (io_watch_config chip) else None))\<rparr>"
  have body: "on_i2c_write_body i data (chip, h) = Some (chip1, h1)"
    using on_i2c_write_body_eq [OF Suc.prems(1) i8, of data h]
    by (simp add: chip1_def h1_def)
  have same: "i2c_portcount chip1 = i2c_portcount chip" "io chip1 = io chip"
    "io_watch_config chip1 = io_watch_config chip" "chip1 = chip\<lparr>inputMask := inputMask chip1\<rparr>"
    by (simp_all add: chip1_def)
  have step: "on_i2c_write_loop i data (chip, h) = on_i2c_write_loop (Suc i) data (chip1, h1)"
    using i8 body by (subst on_i2c_write_loop.simps) simp
  have n: "n = 8 - Suc i" using Suc.hyps(2) by simp
  from Suc.hyps(1) [OF n, of chip1 h1] Suc.prems same(1,2)
  obtain chip' h' where
    loop: "on_i2c_write_loop (Suc i) data (chip1, h1) = Some (chip', h')" and
    chipeq: "chip' = chip1\<lparr>inputMask := inputMask chip'\<rparr>" and
    maskbits: "\<forall>k. bit (inputMask chip') k \<longleftrightarrow>
         bit (inputMask chip1) k \<or>
         (\<exists>j. Suc i \<le> j \<and> j < 8 \<and> k = j + 8 * ?p \<and> bit data j)" and
    heq: "h' = h1\<lparr>pin_modes := pin_modes h', pin_watches := pin_watches h'\<rparr>" and
    set: "\<forall>j. Suc i \<le> j \<and> j < 8 \<longrightarrow>
         pin_modes h' (?pin j) = (if bit data j then INPUT_PULLUP else OUTPUT_LOW) \<and>
         pin_watches h' (?pin j) = (if bit data j then Some (io_watch_config chip) else None)" and
    frame: "\<forall>q. (\<forall>j. Suc i \<le> j \<and> j < 8 \<longrightarrow> q \<noteq> ?pin j) \<longrightarrow>
         pin_modes h' q = pin_modes h1 q \<and> pin_watches h' q = pin_watches h1 q"
    by (auto simp add: same(3))
  have lt16: "i + 8 * ?p < 16" using i8 ple by simp
  have mask1: "\<And>k. bit (inputMask chip1) k \<longleftrightarrow> bit (inputMask chip) k \<or> (k = i + 8 * ?p \<and> bit data i)"
    using lt16 by (auto simp add: chip1_def bit_or_exp16)
  have distinct_pin: "\<And>j. Suc i \<le> j \<Longrightarrow> j < 8 \<Longrightarrow> ?pin i \<noteq> ?pin j"
  proof -
    fix j assume j: "Suc i \<le> j" "j < 8"
    have "i + 8 * ?p < length (io chip)" "j + 8 * ?p < length (io chip)"
      using i8 j ple Suc.prems(2) by simp_all
    with Suc.prems(3) j(1) show "?pin i \<noteq> ?pin j"
      by (simp add: nth_eq_iff_index_eq)
  qed
  have c1: "chip' = chip\<lparr>inputMask := inputMask chip'\<rparr>"
    using chipeq same(4) by (metis chip_state_t.update_convs(5) chip_state_t.surjective chip_state_t.select_convs(5))
  have c2: "\<forall>k. bit (inputMask chip') k \<longleftrightarrow>
         bit (inputMask chip) k \<or> (\<exists>j. i \<le> j \<and> j < 8 \<and> k = j + 8 * ?p \<and> bit data j)"
  proof
    fix k
    have "(\<exists>j. i \<le> j \<and> j < 8 \<and> k = j + 8 * ?p \<and> bit data j) \<longleftrightarrow>
          (k = i + 8 * ?p \<and> bit data i) \<or> (\<exists>j. Suc i \<le> j \<and> j < 8 \<and> k = j + 8 * ?p \<and> bit data j)"
      using i8 by (metis Suc_leI le_neq_implies_less Suc_le_lessD less_or_eq_imp_le order_refl)
    then show "bit (inputMask chip') k \<longleftrightarrow>
         bit (inputMask chip) k \<or> (\<exists>j. i \<le> j \<and> j < 8 \<and> k = j + 8 * ?p \<and> bit data j)"
      using maskbits mask1 by blast
  qed
  have c3: "h' = h\<lparr>pin_modes := pin_modes h', pin_watches := pin_watches h'\<rparr>"
    by (subst heq) (simp add: h1_def)
  have c4: "\<forall>j. i \<le> j \<and> j < 8 \<longrightarrow>
         pin_modes h' (?pin j) = (if bit data j then INPUT_PULLUP else OUTPUT_LOW) \<and>
         pin_watches h' (?pin j) = (if bit data j then Some (io_watch_config chip) else None)"
  proof (intro allI impI)
    fix j assume j: "i \<le> j \<and> j < 8"
    show "pin_modes h' (?pin j) = (if bit data j then INPUT_PULLUP else OUTPUT_LOW) \<and>
         pin_watches h' (?pin j) = (if bit data j then Some (io_watch_config chip) else None)"
    proof (cases "j = i")
      case True
      have "pin_modes h' (?pin i) = pin_modes h1 (?pin i) \<and> pin_watches h' (?pin i) = pin_watches h1 (?pin i)"
        using frame distinct_pin by blast
      then show ?thesis using True by (simp add: h1_def)
    next
      case False
      then have "Suc i \<le> j \<and> j < 8" using j by simp
      then show ?thesis using set by blast
    qed
  qed
  have c5: "\<forall>q. (\<forall>j. i \<le> j \<and> j < 8 \<longrightarrow> q \<noteq> ?pin j) \<longrightarrow>
         pin_modes h' q = pin_modes h q \<and> pin_watches h' q = pin_watches h q"
  proof (intro allI impI)
    fix q assume q: "\<forall>j. i \<le> j \<and> j < 8 \<longrightarrow> q \<noteq> ?pin j"
    then have "q \<noteq> ?pin i" using i8 by blast
    moreover have "pin_modes h' q = pin_modes h1 q \<and> pin_watches h' q = pin_watches h1 q"
      using frame q by (simp add: Suc_le_eq)
    ultimately show "pin_modes h' q = pin_modes h q \<and> pin_watches h' q = pin_watches h q"
      by (simp add: h1_def)
  qed
  show ?case
    unfolding step loop using c1 c2 c3 c4 c5 by blast
qed

lemma mask8_32: "(0xff :: 32 word) = mask 8"
  by (simp add: mask_eq_exp_minus_1)

lemma read_byte0:
  "(ucast (drop_bit (0::nat) (ucast (v :: 16 word) :: 32 word) AND 0xff) :: 8 word) = ucast v"
  unfolding mask8_32 by (rule bit_word_eqI) (auto simp add: bit_simps)

lemma read_byte1:
  "(ucast (drop_bit (8::nat) (ucast (v :: 16 word) :: 32 word) AND 0xff) :: 8 word) = ucast (drop_bit 8 v)"
  unfolding mask8_32 by (rule bit_word_eqI) (auto simp add: bit_simps)

lemma incrementPortCount_le: "i2c_portcount (incrementPortCount chip) \<le> 1"
  by (simp add: incrementPortCount_def)

lemma on_i2c_write_char:
  assumes "i2c_portcount chip \<le> 1" "length (io chip) = NUM_GPIO" "distinct (io chip)"
  shows "\<exists>chip' h'. on_i2c_write (chip, h) data = Some (True, chip', h') \<and>
      chip' = chip\<lparr>inputMask := inputMask chip', i2c_portcount := 1 - i2c_portcount chip\<rparr> \<and>
      (\<forall>k. bit (inputMask chip') k \<longleftrightarrow>
         (i2c_portcount chip \<noteq> 0 \<and> bit (inputMask chip) k) \<or>
         (\<exists>j. j < 8 \<and> k = j + 8 * unat (i2c_portcount chip) \<and> bit data j)) \<and>
      h' = h\<lparr>pin_modes := pin_modes h', pin_watches := pin_watches h', stdout := stdout h'\<rparr> \<and>
      stdout h' = stdout h @ (if i2c_portcount chip \<noteq> 0 then [Msg_Input_mask_is_now (inputMask chip')] else []) \<and>
      (\<forall>j. j < 8 \<longrightarrow>
         pin_modes h' (io chip ! (j + 8 * unat (i2c_portcount chip))) =
           (if bit data j then INPUT_PULLUP else OUTPUT_LOW) \<and>
         pin_watches h' (io chip ! (j + 8 * unat (i2c_portcount chip))) =
           (if bit data j then Some (io_watch_config chip) else None)) \<and>
      (\<forall>q. (\<forall>j. j < 8 \<longrightarrow> q \<noteq> io chip ! (j + 8 * unat (i2c_portcount chip))) \<longrightarrow>
         pin_modes h' q = pin_modes h q \<and> pin_watches h' q = pin_watches h q)"
proof -
  define chip1 where "chip1 = (if i2c_portcount chip = 0 then chip\<lparr>inputMask := 0\<rparr> else chip)"
  have same: "i2c_portcount chip1 = i2c_portcount chip" "io chip1 = io chip"
    "io_watch_config chip1 = io_watch_config chip" "chip1 = chip\<lparr>inputMask := inputMask chip1\<rparr>"
    by (simp_all add: chip1_def)
  have m1: "\<And>k. bit (inputMask chip1) k \<longleftrightarrow> i2c_portcount chip \<noteq> 0 \<and> bit (inputMask chip) k"
    by (simp add: chip1_def)
  from on_i2c_write_loop_char [of chip1 0 data h] assms same(1,2)
  obtain chip2 h2 where
    loop: "on_i2c_write_loop 0 data (chip1, h) = Some (chip2, h2)" and
    chipeq: "chip2 = chip1\<lparr>inputMask := inputMask chip2\<rparr>" and
    maskbits: "\<forall>k. bit (inputMask chip2) k \<longleftrightarrow>
         bit (inputMask chip1) k \<or>
         (\<exists>j. j < 8 \<and> k = j + 8 * unat (i2c_portcount chip) \<and> bit data j)" and
    heq: "h2 = h\<lparr>pin_modes := pin_modes h2, pin_watches := pin_watches h2\<rparr>" and
    set: "\<forall>j. j < 8 \<longrightarrow>
         pin_modes h2 (io chip ! (j + 8 * unat (i2c_portcount chip))) =
           (if bit data j then INPUT_PULLUP else OUTPUT_LOW) \<and>
         pin_watches h2 (io chip ! (j + 8 * unat (i2c_portcount chip))) =
           (if bit data j then Some (io_watch_config chip) else None)" and
    frame: "\<forall>q. (\<forall>j. j < 8 \<longrightarrow> q \<noteq> io chip ! (j + 8 * unat (i2c_portcount chip))) \<longrightarrow>
         pin_modes h2 q = pin_modes h q \<and> pin_watches h2 q = pin_watches h q"
    by (auto simp add: same(3))
  define h3 where "h3 = (if i2c_portcount chip2 \<noteq> 0
                        then printf (Msg_Input_mask_is_now (inputMask chip2)) h2 else h2)"
  have p2: "i2c_portcount chip2 = i2c_portcount chip"
    by (subst chipeq) (simp add: same(1))
  have res: "on_i2c_write (chip, h) data = Some (True, incrementPortCount chip2, h3)"
    using loop by (simp add: chip1_def h3_def Let_def)
  have pc: "i2c_portcount chip = 0 \<or> i2c_portcount chip = 1"
    using assms(1) by (rule portcount_cases)
  have chip2eq: "chip2 = chip\<lparr>inputMask := inputMask chip2\<rparr>"
    by (subst chipeq, subst same(4)) simp
  have c1: "incrementPortCount chip2 =
      chip\<lparr>inputMask := inputMask (incrementPortCount chip2), i2c_portcount := 1 - i2c_portcount chip\<rparr>"
    using pc p2 by (subst (1 2) chip2eq) (auto simp add: incrementPortCount_def)
  have c1m: "inputMask (incrementPortCount chip2) = inputMask chip2"
    by (simp add: incrementPortCount_def)
  have f: "pin_handle h2 = pin_handle h" "pin_levels h2 = pin_levels h" "i2c_devs h2 = i2c_devs h"
    "stdout h2 = stdout h" "host_t.more h2 = host_t.more h"
    by (subst heq, simp)+
  have c3: "h3 = h\<lparr>pin_modes := pin_modes h3, pin_watches := pin_watches h3, stdout := stdout h3\<rparr>"
    by (rule host_t.equality) (simp_all add: h3_def printf_def f)
  have c4: "stdout h3 = stdout h @ (if i2c_portcount chip \<noteq> 0 then [Msg_Input_mask_is_now (inputMask chip2)] else [])"
    by (simp add: h3_def printf_def p2 f)
  have h3m: "pin_modes h3 = pin_modes h2" "pin_watches h3 = pin_watches h2"
    by (simp_all add: h3_def printf_def)
  show ?thesis
    unfolding res using c1 c3 c4 maskbits set frame
    by (simp add: c1m h3m m1)
qed

lemma readInputsValue_loop_bit:
  "bit (readInputsValue_loop i chip h v) k \<longleftrightarrow>
     bit v k \<or> (i \<le> k \<and> k < NUM_GPIO \<and> bit (inputMask chip) k \<and> pin_read (io chip ! k) h \<noteq> 0)"
proof (induction "NUM_GPIO - i" arbitrary: i v)
  case 0
  then have "\<not> i < NUM_GPIO" by simp
  then show ?case by (subst readInputsValue_loop.simps) auto
next
  case (Suc n)
  then have i16: "i < NUM_GPIO" and n: "n = NUM_GPIO - Suc i" by simp_all
  define v' where "v' = (if (ucast (inputMask chip) :: 32 word) AND push_bit i 1 \<noteq> 0
              then (if pin_read (io chip ! i) h \<noteq> 0
                    then v OR ucast (push_bit i (1 :: 32 word)) else v)
              else v)"
  have step: "readInputsValue_loop i chip h v = readInputsValue_loop (Suc i) chip h v'"
    using i16 unfolding v'_def by (subst readInputsValue_loop.simps) (simp del: readInputsValue_loop.simps)
  have v: "bit v' k \<longleftrightarrow> bit v k \<or> (k = i \<and> bit (inputMask chip) k \<and> pin_read (io chip ! k) h \<noteq> 0)"
    using i16 unfolding v'_def
    by (auto simp add: and_exp_eq_0_iff_not_bit bit_ucast_iff bit_or_exp16)
  have ih: "bit (readInputsValue_loop (Suc i) chip h v') k \<longleftrightarrow>
     bit v' k \<or> (Suc i \<le> k \<and> k < NUM_GPIO \<and> bit (inputMask chip) k \<and> pin_read (io chip ! k) h \<noteq> 0)"
    by (rule Suc.hyps(1) [OF n])
  have le: "i \<le> k \<longleftrightarrow> k = i \<or> Suc i \<le> k" by arith
  show ?case
    unfolding step ih v le using i16 by auto
qed

lemma readInputsValue_bit:
  "bit (readInputsValue chip h) k \<longleftrightarrow>
     k < NUM_GPIO \<and> bit (inputMask chip) k \<and> pin_read (io chip ! k) h \<noteq> 0"
  by (simp add: readInputsValue_def readInputsValue_loop_bit del: readInputsValue_loop.simps)

lemma read_address_loop_unroll:
  "read_address_loop 0 chip h 0 =
     (if pin_read (addressBits chip ! 0) h \<noteq> 0 then 1 else 0) OR
     (if pin_read (addressBits chip ! 1) h \<noteq> 0 then 2 else 0) OR
     (if pin_read (addressBits chip ! 2) h \<noteq> 0 then 4 else 0)"
proof -
  have two: "(2::nat) = Suc (Suc 0)" by simp
  show ?thesis unfolding two by (simp add: or.assoc)
qed

lemma on_i2c_write_loop_frame:
  assumes "i2c_portcount chip \<le> 1"
  shows "\<exists>chip' h'. on_i2c_write_loop i data (chip, h) = Some (chip', h') \<and>
      chip' = chip\<lparr>inputMask := inputMask chip'\<rparr> \<and>
      h' = h\<lparr>pin_modes := pin_modes h', pin_watches := pin_watches h'\<rparr>"
  using assms
proof (induction "8 - i" arbitrary: i chip h)
  case 0
  then have "\<not> i < 8" by simp
  then show ?case
    by (subst on_i2c_write_loop.simps) auto
next
  case (Suc n)
  from Suc.hyps(2) have i8: "i < 8" and n: "n = 8 - Suc i" by simp_all
  obtain chip1 h1 where
    body: "on_i2c_write_body i data (chip, h) = Some (chip1, h1)" and
    c1: "chip1 = chip\<lparr>inputMask := inputMask chip1\<rparr>" and
    h1: "h1 = h\<lparr>pin_modes := pin_modes h1, pin_watches := pin_watches h1\<rparr>"
    using on_i2c_write_body_eq [OF Suc.prems i8, of data h] by (cases "bit data i") simp_all
  have p1: "i2c_portcount chip1 \<le> 1"
    using Suc.prems by (subst c1) simp
  have step: "on_i2c_write_loop i data (chip, h) = on_i2c_write_loop (Suc i) data (chip1, h1)"
    using i8 body by (subst on_i2c_write_loop.simps) simp
  from Suc.hyps(1) [OF n p1, of h1]
  obtain chip' h' where
    loop: "on_i2c_write_loop (Suc i) data (chip1, h1) = Some (chip', h')" and
    c2: "chip' = chip1\<lparr>inputMask := inputMask chip'\<rparr>" and
    h2: "h' = h1\<lparr>pin_modes := pin_modes h', pin_watches := pin_watches h'\<rparr>"
    by blast
  have "chip' = chip\<lparr>inputMask := inputMask chip'\<rparr>"
    by (subst c2, subst c1) simp
  moreover have "h' = h\<lparr>pin_modes := pin_modes h', pin_watches := pin_watches h'\<rparr>"
    by (subst h2, subst h1) simp
  ultimately show ?case
    unfolding step loop by blast
qed

lemma on_i2c_write_frame:
  assumes "i2c_portcount chip \<le> 1"
  shows "\<exists>chip' h'. on_i2c_write (chip, h) data = Some (True, chip', h') \<and>
      chip' = chip\<lparr>inputMask := inputMask chip', i2c_portcount := 1 - i2c_portcount chip\<rparr> \<and>
      h' = h\<lparr>pin_modes := pin_modes h', pin_watches := pin_watches h', stdout := stdout h'\<rparr>"
proof -
  define chip1 where "chip1 = (if i2c_portcount chip = 0 then chip\<lparr>inputMask := 0\<rparr> else chip)"
  have p1: "i2c_portcount chip1 \<le> 1" and c1: "chip1 = chip\<lparr>inputMask := inputMask chip1\<rparr>"
    using assms by (simp_all add: chip1_def)
  from on_i2c_write_loop_frame [OF p1, of 0 data h]
  obtain chip2 h2 where
    loop: "on_i2c_write_loop 0 data (chip1, h) = Some (chip2, h2)" and
    c2: "chip2 = chip1\<lparr>inputMask := inputMask chip2\<rparr>" and
    h2: "h2 = h\<lparr>pin_modes := pin_modes h2, pin_watches := pin_watches h2\<rparr>"
    by blast
  define h3 where "h3 = (if i2c_portcount chip2 \<noteq> 0
                        then printf (Msg_Input_mask_is_now (inputMask chip2)) h2 else h2)"
  have res: "on_i2c_write (chip, h) data = Some (True, incrementPortCount chip2, h3)"
    using loop by (simp add: chip1_def h3_def Let_def)
  have chip2eq: "chip2 = chip\<lparr>inputMask := inputMask chip2\<rparr>"
    by (subst c2, subst c1) simp
  have pc: "i2c_portcount chip = 0 \<or> i2c_portcount chip = 1"
    using assms by (rule portcount_cases)
  have a: "incrementPortCount chip2 =
      chip\<lparr>inputMask := inputMask (incrementPortCount chip2), i2c_portcount := 1 - i2c_portcount chip\<rparr>"
    using pc by (subst (1 2) chip2eq) (auto simp add: incrementPortCount_def)
  have f: "pin_handle h2 = pin_handle h" "pin_levels h2 = pin_levels h" "i2c_devs h2 = i2c_devs h"
    "stdout h2 = stdout h" "host_t.more h2 = host_t.more h"
    by (subst h2, simp)+
  have b: "h3 = h\<lparr>pin_modes := pin_modes h3, pin_watches := pin_watches h3, stdout := stdout h3\<rparr>"
    by (rule host_t.equality) (simp_all add: h3_def printf_def f)
  show ?thesis
    unfolding res using a b by blast
qed

lemma example_chip_ok: "chip_ok example_chip"
  by (simp add: chip_ok_def example_chip_def)

lemma read_byte_index:
  assumes "(p :: 8 word) \<le> 1"
  shows "(ucast (drop_bit (unat p * 8) (ucast (v :: 16 word) :: 32 word) AND 0xff) :: 8 word) =
         ucast (drop_bit (8 * unat p) v)"
  using portcount_cases [OF assms] read_byte0 [of v] read_byte1 [of v] by auto

section \<open>Reading the two ports\<close>

text \<open>
  Claim C2. With the port counter at 0 or 1, \<open>on_i2c_read\<close> returns byte number
  \<open>i2c_portcount\<close> of \<open>inputValue\<close>, low byte first, and flips the counter between
  0 and 1; whenever it returns, the counter is at most 1 afterwards; and with
  \<open>inputValue = 0x1234\<close> the three reads after a read connect return \<open>0x34\<close>,
  \<open>0x12\<close>, \<open>0x34\<close>.
\<close>

theorem C2_on_i2c_read:
  "(i2c_portcount chip \<le> 1 \<longrightarrow>
      on_i2c_read (chip, h) =
        Some (ucast (drop_bit (8 * unat (i2c_portcount chip)) (inputValue chip)),
              chip\<lparr>i2c_portcount := 1 - i2c_portcount chip\<rparr>, h)) \<and>
   (\<forall>b chip' h'. on_i2c_read (chip, h) = Some (b, chip', h') \<longrightarrow> i2c_portcount chip' \<le> 1) \<and>
   (inputValue chip = 0x1234 \<longrightarrow>
      (\<exists>s0 s1 s2 s3. on_i2c_connect (chip, h) addr True = (True, s0) \<and>
         on_i2c_read s0 = Some (0x34, s1) \<and>
         on_i2c_read s1 = Some (0x12, s2) \<and>
         on_i2c_read s2 = Some (0x34, s3)))"
proof (intro conjI impI allI)
  assume p: "i2c_portcount chip \<le> 1"
  then have "unat (i2c_portcount chip) \<le> 1" by (simp add: word_le_nat_alt)
  then have lt: "unat (i2c_portcount chip) * 8 < 32" by simp
  have inc: "incrementPortCount chip = chip\<lparr>i2c_portcount := 1 - i2c_portcount chip\<rparr>"
    using portcount_cases [OF p] by (auto simp add: incrementPortCount_def)
  show "on_i2c_read (chip, h) =
        Some (ucast (drop_bit (8 * unat (i2c_portcount chip)) (inputValue chip)),
              chip\<lparr>i2c_portcount := 1 - i2c_portcount chip\<rparr>, h)"
    using lt by (simp add: read_byte_index [OF p] inc)
next
  fix b chip' h'
  assume "on_i2c_read (chip, h) = Some (b, chip', h')"
  then have "chip' = incrementPortCount chip"
    by (auto split: if_splits)
  then show "i2c_portcount chip' \<le> 1"
    by (simp add: incrementPortCount_le)
next
  assume "inputValue chip = 0x1234"
  then show "\<exists>s0 s1 s2 s3. on_i2c_connect (chip, h) addr True = (True, s0) \<and>
         on_i2c_read s0 = Some (0x34, s1) \<and>
         on_i2c_read s1 = Some (0x12, s2) \<and>
         on_i2c_read s2 = Some (0x34, s3)"
    by (simp add: incrementPortCount_def Let_def)
qed

theorem C2_on_i2c_read_witness:
  "i2c_portcount example_chip \<le> 1 \<and>
   on_i2c_read (example_chip, example_host) = Some (0xff, example_chip\<lparr>i2c_portcount := 1\<rparr>, example_host) \<and>
   on_i2c_read (example_chip\<lparr>inputValue := 0x1234, i2c_portcount := 1\<rparr>, example_host) =
     Some (0x12, example_chip\<lparr>inputValue := 0x1234, i2c_portcount := 0\<rparr>, example_host) \<and>
   (\<exists>s0 s1 s2 s3.
      on_i2c_connect (example_chip\<lparr>inputValue := 0x1234\<rparr>, example_host) 0x20 True = (True, s0) \<and>
      on_i2c_read s0 = Some (0x34, s1) \<and> on_i2c_read s1 = Some (0x12, s2) \<and>
      on_i2c_read s2 = Some (0x34, s3))"
  using C2_on_i2c_read [where chip = example_chip and h = example_host and addr = "0x20"]
    C2_on_i2c_read [where chip = "example_chip\<lparr>inputValue := 0x1234, i2c_portcount := 1\<rparr>" and h = example_host and addr = "0x20"]
    C2_on_i2c_read [where chip = "example_chip\<lparr>inputValue := 0x1234\<rparr>" and h = example_host and addr = "0x20"]
  by (simp add: example_chip_def)

section \<open>The read connect\<close>

text \<open>
  Claim C4. A connect with \<open>read = True\<close> acknowledges, copies \<open>inputValue\<close> to
  \<open>lastReadValue\<close>, sets the port counter to 0 and leaves the interrupt pin an
  \<open>INPUT\<close> (released), all in the connect itself; a byte read that follows changes
  neither \<open>lastReadValue\<close> nor anything on the host.
\<close>

theorem C4_on_i2c_connect_read:
  "(\<exists>h'. on_i2c_connect (chip, h) addr True =
           (True, chip\<lparr>i2c_portcount := 0, lastReadValue := inputValue chip\<rparr>, h') \<and>
         pin_modes h' (nINT chip) = INPUT) \<and>
   (\<forall>s b chip' h'. on_i2c_read s = Some (b, chip', h') \<longrightarrow>
      lastReadValue chip' = lastReadValue (fst s) \<and> nINT chip' = nINT (fst s) \<and> h' = snd s)"
proof (intro conjI allI impI)
  show "\<exists>h'. on_i2c_connect (chip, h) addr True =
           (True, chip\<lparr>i2c_portcount := 0, lastReadValue := inputValue chip\<rparr>, h') \<and>
         pin_modes h' (nINT chip) = INPUT"
    by (simp add: Let_def interruptFlagOff_def pin_mode_def)
next
  fix s b chip' h'
  assume r: "on_i2c_read s = Some (b, chip', h')"
  obtain chip0 h0 where s: "s = (chip0, h0)" by (cases s)
  from r show "lastReadValue chip' = lastReadValue (fst s)"
    unfolding s by (auto simp add: incrementPortCount_def split: if_splits)
  from r show "nINT chip' = nINT (fst s)"
    unfolding s by (auto simp add: incrementPortCount_def split: if_splits)
  from r show "h' = snd s"
    unfolding s by (auto split: if_splits)
qed

theorem C4_on_i2c_connect_read_witness:
  "(\<exists>h'. on_i2c_connect (example_chip\<lparr>inputValue := 0x1234, i2c_portcount := 1\<rparr>,
                          example_host\<lparr>pin_modes := (pin_modes example_host)(16 := OUTPUT_LOW)\<rparr>) 0x20 True =
           (True, example_chip\<lparr>inputValue := 0x1234, i2c_portcount := 0, lastReadValue := 0x1234\<rparr>, h') \<and>
         pin_modes h' 16 = INPUT) \<and>
   on_i2c_read (example_chip, example_host) = Some (0xff, example_chip\<lparr>i2c_portcount := 1\<rparr>, example_host) \<and>
   lastReadValue (example_chip\<lparr>i2c_portcount := 1\<rparr>) = lastReadValue example_chip"
  using C4_on_i2c_connect_read [where chip = "example_chip\<lparr>inputValue := 0x1234, i2c_portcount := 1\<rparr>"
      and h = "example_host\<lparr>pin_modes := (pin_modes example_host)(16 := OUTPUT_LOW)\<rparr>" and addr = "0x20"]
  by (simp add: example_chip_def incrementPortCount_def)

section \<open>The callbacks in closed form\<close>

lemma chip_input_io_change_eq:
  "chip_input_io_change (chip, h) pin val =
     (chip\<lparr>inputValue := readInputsValue chip h\<rparr>,
      h\<lparr>pin_modes := (pin_modes h)(nINT chip :=
           (if readInputsValue chip h \<noteq> lastReadValue chip then OUTPUT_LOW else INPUT)),
        stdout := stdout h @
           (if readInputsValue chip h \<noteq> lastReadValue chip then [Msg_INT_flag_SET] else []) @
           [Msg_IO_input_changed, Msg_INPUTVALUE ''from'' (lastReadValue chip),
            Msg_INPUTVALUE ''to'' (readInputsValue chip h), Msg_newline]\<rparr>)"
  by (simp add: Let_def interruptFlagOn_def interruptFlagOff_def pin_mode_def printf_def)

lemma chip_addr_change_eq:
  "chip_addr_change (chip, h) pin val =
     (chip\<lparr>address := fst (read_address chip h)\<rparr>,
      h\<lparr>stdout := stdout h @
          [Msg_Chip_LSB_bits (read_address_loop 0 chip h 0) (fst (read_address chip h))]\<rparr>)"
  by (simp add: read_address_def Let_def printf_def del: read_address_loop.simps)

lemma on_i2c_connect_eq:
  "on_i2c_connect (chip, h) addr rd =
     (True,
      (if rd then chip\<lparr>i2c_portcount := 0, lastReadValue := inputValue chip\<rparr>
       else chip\<lparr>i2c_portcount := 0\<rparr>),
      (if rd then h\<lparr>pin_modes := (pin_modes h)(nINT chip := INPUT),
                     stdout := stdout h @
                       (if addr \<noteq> ucast (address chip)
                        then [Msg_Getting_connects addr (address chip)] else []) @
                       [Msg_Read_reset_INT_flag]\<rparr>
       else h\<lparr>stdout := stdout h @
                       (if addr \<noteq> ucast (address chip)
                        then [Msg_Getting_connects addr (address chip)] else [])\<rparr>))"
  by (simp add: Let_def interruptFlagOff_def pin_mode_def printf_def)

lemma on_i2c_read_total:
  assumes "i2c_portcount chip \<le> 1"
  shows "\<exists>b. on_i2c_read (chip, h) = Some (b, incrementPortCount chip, h)"
proof -
  from assms have "unat (i2c_portcount chip) \<le> 1" by (simp add: word_le_nat_alt)
  then have "unat (i2c_portcount chip) * 8 < 32" by simp
  then show ?thesis by simp
qed

lemma on_i2c_write_ack:
  assumes "on_i2c_write (chip, h) data = Some (ack, s)"
  shows "ack"
  using assms by (auto simp add: Let_def split: option.splits if_splits simp del: on_i2c_write_loop.simps)

section \<open>What changes \<open>lastReadValue\<close>\<close>

text \<open>
  Claim C9. \<open>lastReadValue\<close> is left as it is by a byte read, a byte write, a
  disconnect, a change of a monitored line, a change of an address line and a connect
  with \<open>read = False\<close>. The byte read and the byte write are stated for a port counter
  of 0 or 1, where they are defined, and they do return there.
\<close>

theorem C9_lastReadValue_frame:
  "(i2c_portcount chip \<le> 1 \<longrightarrow>
      (\<exists>b chip' h'. on_i2c_read (chip, h) = Some (b, chip', h') \<and>
         lastReadValue chip' = lastReadValue chip)) \<and>
   (i2c_portcount chip \<le> 1 \<longrightarrow>
      (\<exists>chip' h'. on_i2c_write (chip, h) data = Some (True, chip', h') \<and>
         lastReadValue chip' = lastReadValue chip)) \<and>
   lastReadValue (fst (on_i2c_disconnect (chip, h))) = lastReadValue chip \<and>
   lastReadValue (fst (chip_input_io_change (chip, h) pin val)) = lastReadValue chip \<and>
   lastReadValue (fst (chip_addr_change (chip, h) pin val)) = lastReadValue chip \<and>
   lastReadValue (fst (snd (on_i2c_connect (chip, h) addr False))) = lastReadValue chip"
proof (intro conjI impI)
  assume p: "i2c_portcount chip \<le> 1"
  from on_i2c_read_total [OF p, of h]
  obtain b where r: "on_i2c_read (chip, h) = Some (b, incrementPortCount chip, h)" by blast
  have "lastReadValue (incrementPortCount chip) = lastReadValue chip"
    by (simp add: incrementPortCount_def)
  with r show "\<exists>b chip' h'. on_i2c_read (chip, h) = Some (b, chip', h') \<and>
         lastReadValue chip' = lastReadValue chip"
    by blast
next
  assume p: "i2c_portcount chip \<le> 1"
  from on_i2c_write_frame [OF p, of h data]
  obtain chip' h' where w: "on_i2c_write (chip, h) data = Some (True, chip', h')"
    and c: "chip' = chip\<lparr>inputMask := inputMask chip', i2c_portcount := 1 - i2c_portcount chip\<rparr>"
    by blast
  have "lastReadValue chip' = lastReadValue chip"
    by (subst c) simp
  with w show "\<exists>chip' h'. on_i2c_write (chip, h) data = Some (True, chip', h') \<and>
         lastReadValue chip' = lastReadValue chip"
    by blast
next
  show "lastReadValue (fst (on_i2c_disconnect (chip, h))) = lastReadValue chip"
    by simp
next
  show "lastReadValue (fst (chip_input_io_change (chip, h) pin val)) = lastReadValue chip"
    by (simp add: chip_input_io_change_eq del: chip_input_io_change.simps)
next
  show "lastReadValue (fst (chip_addr_change (chip, h) pin val)) = lastReadValue chip"
    by (simp add: chip_addr_change_eq del: chip_addr_change.simps)
next
  show "lastReadValue (fst (snd (on_i2c_connect (chip, h) addr False))) = lastReadValue chip"
    by (simp add: on_i2c_connect_eq del: on_i2c_connect.simps)
qed

theorem C9_lastReadValue_frame_witness:
  "i2c_portcount (example_chip\<lparr>lastReadValue := 0x1234\<rparr>) \<le> 1 \<and>
   (\<exists>b chip' h'. on_i2c_read (example_chip\<lparr>lastReadValue := 0x1234\<rparr>, example_host) = Some (b, chip', h') \<and>
      lastReadValue chip' = 0x1234) \<and>
   (\<exists>chip' h'. on_i2c_write (example_chip\<lparr>lastReadValue := 0x1234\<rparr>, example_host) 0x0F = Some (True, chip', h') \<and>
      lastReadValue chip' = 0x1234)"
  using C9_lastReadValue_frame [where chip = "example_chip\<lparr>lastReadValue := 0x1234\<rparr>"
      and h = example_host and data = "0x0F"]
  by (simp add: example_chip_def del: on_i2c_read.simps on_i2c_write.simps)

section \<open>Acknowledging\<close>

text \<open>
  Claim C7. A connect is acknowledged whatever the address, and a byte write is
  acknowledged whatever the byte: it returns with the port counter at 0 or 1 and
  never returns a NACK. A connect to an address other than the chip's leaves the same
  chip state and the same host state as a connect to the chip's address, apart from
  one more line of output.
\<close>

theorem C7_always_ack:
  "fst (on_i2c_connect (chip, h) addr rd) \<and>
   (i2c_portcount chip \<le> 1 \<longrightarrow> (\<exists>s. on_i2c_write (chip, h) data = Some (True, s))) \<and>
   (\<forall>ack s. on_i2c_write (chip, h) data = Some (ack, s) \<longrightarrow> ack) \<and>
   fst (snd (on_i2c_connect (chip, h) addr rd)) =
     fst (snd (on_i2c_connect (chip, h) (ucast (address chip)) rd)) \<and>
   (snd (snd (on_i2c_connect (chip, h) addr rd)))\<lparr>stdout := []\<rparr> =
     (snd (snd (on_i2c_connect (chip, h) (ucast (address chip)) rd)))\<lparr>stdout := []\<rparr> \<and>
   stdout (snd (snd (on_i2c_connect (chip, h) addr rd))) =
     stdout h @
     (if addr \<noteq> ucast (address chip) then [Msg_Getting_connects addr (address chip)] else []) @
     drop (length (stdout h)) (stdout (snd (snd (on_i2c_connect (chip, h) (ucast (address chip)) rd))))"
proof (intro conjI impI allI)
  show "fst (on_i2c_connect (chip, h) addr rd)"
    by (simp add: on_i2c_connect_eq del: on_i2c_connect.simps)
next
  assume p: "i2c_portcount chip \<le> 1"
  from on_i2c_write_frame [OF p, of h data]
  show "\<exists>s. on_i2c_write (chip, h) data = Some (True, s)" by blast
next
  fix ack s
  assume "on_i2c_write (chip, h) data = Some (ack, s)"
  then show ack by (rule on_i2c_write_ack)
next
  show "fst (snd (on_i2c_connect (chip, h) addr rd)) =
     fst (snd (on_i2c_connect (chip, h) (ucast (address chip)) rd))"
    by (simp add: on_i2c_connect_eq del: on_i2c_connect.simps)
next
  show "(snd (snd (on_i2c_connect (chip, h) addr rd)))\<lparr>stdout := []\<rparr> =
     (snd (snd (on_i2c_connect (chip, h) (ucast (address chip)) rd)))\<lparr>stdout := []\<rparr>"
    by (simp add: on_i2c_connect_eq del: on_i2c_connect.simps)
next
  show "stdout (snd (snd (on_i2c_connect (chip, h) addr rd))) =
     stdout h @
     (if addr \<noteq> ucast (address chip) then [Msg_Getting_connects addr (address chip)] else []) @
     drop (length (stdout h)) (stdout (snd (snd (on_i2c_connect (chip, h) (ucast (address chip)) rd))))"
    by (simp add: on_i2c_connect_eq del: on_i2c_connect.simps)
qed

theorem C7_always_ack_witness:
  "fst (on_i2c_connect (example_chip, example_host) 0x55 True) \<and>
   i2c_portcount example_chip \<le> 1 \<and>
   (\<exists>s. on_i2c_write (example_chip, example_host) 0xA5 = Some (True, s)) \<and>
   stdout (snd (snd (on_i2c_connect (example_chip, example_host) 0x55 True))) =
     stdout example_host @ [Msg_Getting_connects 0x55 0x20, Msg_Read_reset_INT_flag] \<and>
   stdout (snd (snd (on_i2c_connect (example_chip, example_host) 0x20 True))) =
     stdout example_host @ [Msg_Read_reset_INT_flag]"
  using C7_always_ack [where chip = example_chip and h = example_host and addr = "0x55"
      and rd = True and data = "0xA5"]
  by (simp add: example_chip_def on_i2c_connect_eq del: on_i2c_connect.simps on_i2c_write.simps)

section \<open>The interrupt line\<close>

lemma chip_ok_nINT_not_io:
  assumes "chip_ok chip" "k < NUM_GPIO"
  shows "nINT chip \<noteq> io chip ! k"
proof -
  from assms have "io chip ! k \<in> set (io chip)" by (simp add: chip_ok_def)
  moreover from assms(1) have "nINT chip \<notin> set (io chip)" by (simp add: chip_ok_def)
  ultimately show ?thesis by metis
qed

lemma readInputsValue_example_low0:
  "\<not> bit (readInputsValue example_chip (example_host\<lparr>pin_levels := (pin_levels example_host)(0 := 0)\<rparr>)) 0"
  by (simp add: readInputsValue_bit example_chip_def example_host_def pin_read_def)

lemma readInputsValue_example_low0_neq:
  "readInputsValue example_chip (example_host\<lparr>pin_levels := (pin_levels example_host)(0 := 0)\<rparr>) \<noteq> 0xffff"
proof
  assume "readInputsValue example_chip (example_host\<lparr>pin_levels := (pin_levels example_host)(0 := 0)\<rparr>) = 0xffff"
  then have "bit (readInputsValue example_chip (example_host\<lparr>pin_levels := (pin_levels example_host)(0 := 0)\<rparr>)) 0"
    by simp
  with readInputsValue_example_low0 show False by simp
qed

text \<open>
  Claim C1. A change of a monitored line recomputes \<open>inputValue\<close> and leaves the
  interrupt pin \<open>OUTPUT_LOW\<close> (asserted) if the new value differs from
  \<open>lastReadValue\<close> and \<open>INPUT\<close> (released) if it is equal. A read connect releases
  the pin. No other callback touches the mode of the interrupt pin: not a write
  connect, a byte read, a byte write (on a chip with distinct pin handles), a
  disconnect or a change of an address line. Before any callback runs, \<open>chip_init\<close>
  creates the pin released (claim C10).
\<close>

theorem C1_interrupt_line:
  "(\<exists>chip' h'. chip_input_io_change (chip, h) pin val = (chip', h') \<and>
      inputValue chip' = readInputsValue chip h \<and> lastReadValue chip' = lastReadValue chip \<and>
      nINT chip' = nINT chip \<and>
      pin_modes h' (nINT chip') =
        (if inputValue chip' \<noteq> lastReadValue chip' then OUTPUT_LOW else INPUT)) \<and>
   (\<exists>chip' h'. on_i2c_connect (chip, h) addr True = (True, chip', h') \<and>
      nINT chip' = nINT chip \<and> pin_modes h' (nINT chip') = INPUT) \<and>
   (\<exists>chip' h'. on_i2c_connect (chip, h) addr False = (True, chip', h') \<and>
      nINT chip' = nINT chip \<and> pin_modes h' = pin_modes h) \<and>
   (i2c_portcount chip \<le> 1 \<longrightarrow>
      (\<exists>b chip'. on_i2c_read (chip, h) = Some (b, chip', h) \<and> nINT chip' = nINT chip)) \<and>
   (chip_ok chip \<and> i2c_portcount chip \<le> 1 \<longrightarrow>
      (\<exists>chip' h'. on_i2c_write (chip, h) data = Some (True, chip', h') \<and>
         nINT chip' = nINT chip \<and> pin_modes h' (nINT chip') = pin_modes h (nINT chip))) \<and>
   on_i2c_disconnect (chip, h) = (chip, h) \<and>
   (\<exists>chip' h'. chip_addr_change (chip, h) pin val = (chip', h') \<and>
      nINT chip' = nINT chip \<and> pin_modes h' = pin_modes h)"
proof (intro conjI impI)
  show "\<exists>chip' h'. chip_input_io_change (chip, h) pin val = (chip', h') \<and>
      inputValue chip' = readInputsValue chip h \<and> lastReadValue chip' = lastReadValue chip \<and>
      nINT chip' = nINT chip \<and>
      pin_modes h' (nINT chip') =
        (if inputValue chip' \<noteq> lastReadValue chip' then OUTPUT_LOW else INPUT)"
    by (simp add: chip_input_io_change_eq del: chip_input_io_change.simps)
next
  show "\<exists>chip' h'. on_i2c_connect (chip, h) addr True = (True, chip', h') \<and>
      nINT chip' = nINT chip \<and> pin_modes h' (nINT chip') = INPUT"
    by (simp add: on_i2c_connect_eq del: on_i2c_connect.simps)
next
  show "\<exists>chip' h'. on_i2c_connect (chip, h) addr False = (True, chip', h') \<and>
      nINT chip' = nINT chip \<and> pin_modes h' = pin_modes h"
    by (simp add: on_i2c_connect_eq del: on_i2c_connect.simps)
next
  assume p: "i2c_portcount chip \<le> 1"
  from on_i2c_read_total [OF p, of h]
  obtain b where r: "on_i2c_read (chip, h) = Some (b, incrementPortCount chip, h)" by blast
  have "nINT (incrementPortCount chip) = nINT chip"
    by (simp add: incrementPortCount_def)
  with r show "\<exists>b chip'. on_i2c_read (chip, h) = Some (b, chip', h) \<and> nINT chip' = nINT chip"
    by blast
next
  assume a: "chip_ok chip \<and> i2c_portcount chip \<le> 1"
  then have ok: "chip_ok chip" and p: "i2c_portcount chip \<le> 1" by simp_all
  from ok have len: "length (io chip) = NUM_GPIO" and dist: "distinct (io chip)"
    by (simp_all add: chip_ok_def)
  from on_i2c_write_char [OF p len dist, of h data]
  obtain chip' h' where w: "on_i2c_write (chip, h) data = Some (True, chip', h')"
    and c: "chip' = chip\<lparr>inputMask := inputMask chip', i2c_portcount := 1 - i2c_portcount chip\<rparr>"
    and frame: "\<forall>q. (\<forall>j. j < 8 \<longrightarrow> q \<noteq> io chip ! (j + 8 * unat (i2c_portcount chip))) \<longrightarrow>
         pin_modes h' q = pin_modes h q \<and> pin_watches h' q = pin_watches h q"
    by blast
  have n: "nINT chip' = nINT chip" by (subst c) simp
  have "unat (i2c_portcount chip) \<le> 1" using p by (simp add: word_le_nat_alt)
  then have "\<forall>j. j < 8 \<longrightarrow> nINT chip \<noteq> io chip ! (j + 8 * unat (i2c_portcount chip))"
    using chip_ok_nINT_not_io [OF ok] by simp
  with frame have "pin_modes h' (nINT chip) = pin_modes h (nINT chip)" by blast
  with w n show "\<exists>chip' h'. on_i2c_write (chip, h) data = Some (True, chip', h') \<and>
         nINT chip' = nINT chip \<and> pin_modes h' (nINT chip') = pin_modes h (nINT chip)"
    by simp
next
  show "on_i2c_disconnect (chip, h) = (chip, h)" by simp
next
  show "\<exists>chip' h'. chip_addr_change (chip, h) pin val = (chip', h') \<and>
      nINT chip' = nINT chip \<and> pin_modes h' = pin_modes h"
    by (simp add: chip_addr_change_eq del: chip_addr_change.simps)
qed

theorem C1_interrupt_line_witness:
  "chip_ok example_chip \<and> i2c_portcount example_chip \<le> 1 \<and>
   (\<exists>chip' h'. chip_input_io_change
        (example_chip, example_host\<lparr>pin_levels := (pin_levels example_host)(0 := 0)\<rparr>) 0 0 = (chip', h') \<and>
      pin_modes h' 16 = OUTPUT_LOW) \<and>
   (\<exists>chip' h'. chip_input_io_change (example_chip\<lparr>lastReadValue := 0\<rparr>,
        example_host\<lparr>pin_levels := (\<lambda>p. 0), pin_modes := (pin_modes example_host)(16 := OUTPUT_LOW)\<rparr>) 0 0 = (chip', h') \<and>
      pin_modes h' 16 = INPUT) \<and>
   (\<exists>chip' h'. on_i2c_write (example_chip,
        example_host\<lparr>pin_modes := (pin_modes example_host)(16 := OUTPUT_LOW)\<rparr>) 0x0F = Some (True, chip', h') \<and>
      pin_modes h' 16 = OUTPUT_LOW)"
proof -
  let ?h1 = "example_host\<lparr>pin_levels := (pin_levels example_host)(0 := 0)\<rparr>"
  let ?c2 = "example_chip\<lparr>lastReadValue := 0\<rparr>"
  let ?h2 = "example_host\<lparr>pin_levels := (\<lambda>p. 0), pin_modes := (pin_modes example_host)(16 := OUTPUT_LOW)\<rparr>"
  let ?h3 = "example_host\<lparr>pin_modes := (pin_modes example_host)(16 := OUTPUT_LOW)\<rparr>"
  have n: "nINT example_chip = 16" "lastReadValue example_chip = 0xffff" "i2c_portcount example_chip \<le> 1"
    "nINT ?c2 = 16" "lastReadValue ?c2 = 0"
    by (simp_all add: example_chip_def)
  have r2: "readInputsValue ?c2 ?h2 = 0"
    by (rule bit_word_eqI) (simp add: readInputsValue_bit pin_read_def)
  from C1_interrupt_line [where chip = example_chip and h = ?h1 and pin = 0 and val = 0, THEN conjunct1]
  obtain chip1 h1 where a1: "chip_input_io_change (example_chip, ?h1) 0 0 = (chip1, h1)"
    and a2: "inputValue chip1 = readInputsValue example_chip ?h1"
    and a3: "lastReadValue chip1 = lastReadValue example_chip" and a4: "nINT chip1 = nINT example_chip"
    and a5: "pin_modes h1 (nINT chip1) =
        (if inputValue chip1 \<noteq> lastReadValue chip1 then OUTPUT_LOW else INPUT)"
    by blast
  have "pin_modes h1 16 = OUTPUT_LOW"
    using a5 readInputsValue_example_low0_neq unfolding a2 a3 a4 n by simp
  with a1 have a: "\<exists>chip' h'. chip_input_io_change (example_chip, ?h1) 0 0 = (chip', h') \<and>
      pin_modes h' 16 = OUTPUT_LOW"
    by blast
  from C1_interrupt_line [where chip = ?c2 and h = ?h2 and pin = 0 and val = 0, THEN conjunct1]
  obtain chip2 h2 where b1: "chip_input_io_change (?c2, ?h2) 0 0 = (chip2, h2)"
    and b2: "inputValue chip2 = readInputsValue ?c2 ?h2"
    and b3: "lastReadValue chip2 = lastReadValue ?c2" and b4: "nINT chip2 = nINT ?c2"
    and b5: "pin_modes h2 (nINT chip2) =
        (if inputValue chip2 \<noteq> lastReadValue chip2 then OUTPUT_LOW else INPUT)"
    by blast
  have "pin_modes h2 16 = INPUT"
    using b5 unfolding b2 b3 b4 r2 n by simp
  with b1 have b: "\<exists>chip' h'. chip_input_io_change (?c2, ?h2) 0 0 = (chip', h') \<and> pin_modes h' 16 = INPUT"
    by blast
  from C1_interrupt_line [where chip = example_chip and h = ?h3 and data = "0x0F",
      THEN conjunct2, THEN conjunct2, THEN conjunct2, THEN conjunct2, THEN conjunct1]
    example_chip_ok n(3)
  obtain chip3 h3 where c1: "on_i2c_write (example_chip, ?h3) 0x0F = Some (True, chip3, h3)"
    and c2: "nINT chip3 = nINT example_chip"
    and c3: "pin_modes h3 (nINT chip3) = pin_modes ?h3 (nINT example_chip)"
    by blast
  have "pin_modes h3 16 = OUTPUT_LOW"
    using c3 unfolding c2 n by simp
  with c1 have c: "\<exists>chip' h'. on_i2c_write (example_chip, ?h3) 0x0F = Some (True, chip', h') \<and>
      pin_modes h' 16 = OUTPUT_LOW"
    by blast
  from a b c example_chip_ok n(3) show ?thesis by blast
qed

section \<open>The bus address\<close>





section \<open>Writing the two ports\<close>

lemma written_mask_bits:
  assumes "p \<le> (1::nat)" "k < 16"
  shows "bit ((m :: 16 word) OR push_bit (8 * p) (ucast (data :: 8 word))) k \<longleftrightarrow>
         bit m k \<or> (\<exists>j. j < 8 \<and> k = j + 8 * p \<and> bit data j)"
proof -
  have "bit (push_bit (8 * p) (ucast data :: 16 word)) k \<longleftrightarrow>
        8 * p \<le> k \<and> k - 8 * p < 8 \<and> bit data (k - 8 * p)"
    using assms by (auto simp add: bit_push_bit_iff bit_ucast_iff dest: bit_imp_le_length)
  also have "\<dots> \<longleftrightarrow> (\<exists>j. j < 8 \<and> k = j + 8 * p \<and> bit data j)"
  proof
    assume a: "8 * p \<le> k \<and> k - 8 * p < 8 \<and> bit data (k - 8 * p)"
    then have "k - 8 * p < 8 \<and> k = (k - 8 * p) + 8 * p \<and> bit data (k - 8 * p)" by simp
    then show "\<exists>j. j < 8 \<and> k = j + 8 * p \<and> bit data j" by blast
  next
    assume "\<exists>j. j < 8 \<and> k = j + 8 * p \<and> bit data j"
    then obtain j where "j < 8" "k = j + 8 * p" "bit data j" by blast
    then show "8 * p \<le> k \<and> k - 8 * p < 8 \<and> bit data (k - 8 * p)" by simp
  qed
  finally show ?thesis by (simp add: bit_or_iff)
qed

lemma on_i2c_write_lines:
  assumes ok: "chip_ok chip" and p: "i2c_portcount chip \<le> 1"
  shows "\<exists>chip' h'. on_i2c_write (chip, h) data = Some (True, chip', h') \<and>
      chip' = chip\<lparr>inputMask := (if i2c_portcount chip = 0 then 0 else inputMask chip) OR
                                  push_bit (8 * unat (i2c_portcount chip)) (ucast data),
                    i2c_portcount := 1 - i2c_portcount chip\<rparr> \<and>
      (\<forall>k. k < NUM_GPIO \<longrightarrow>
         pin_modes h' (io chip ! k) =
           (if k div 8 = unat (i2c_portcount chip)
            then (if bit data (k mod 8) then INPUT_PULLUP else OUTPUT_LOW)
            else pin_modes h (io chip ! k)) \<and>
         pin_watches h' (io chip ! k) =
           (if k div 8 = unat (i2c_portcount chip)
            then (if bit data (k mod 8) then Some (io_watch_config chip) else None)
            else pin_watches h (io chip ! k))) \<and>
      (\<forall>q. q \<notin> set (io chip) \<longrightarrow>
         pin_modes h' q = pin_modes h q \<and> pin_watches h' q = pin_watches h q) \<and>
      pin_levels h' = pin_levels h"
proof -
  let ?p = "unat (i2c_portcount chip)"
  from ok have len: "length (io chip) = NUM_GPIO" and dist: "distinct (io chip)"
    by (simp_all add: chip_ok_def)
  have ple: "?p \<le> 1" using p by (simp add: word_le_nat_alt)
  from on_i2c_write_char [OF p len dist, of h data]
  obtain chip' h' where w: "on_i2c_write (chip, h) data = Some (True, chip', h')"
    and c: "chip' = chip\<lparr>inputMask := inputMask chip', i2c_portcount := 1 - i2c_portcount chip\<rparr>"
    and m: "\<forall>k. bit (inputMask chip') k \<longleftrightarrow>
         (i2c_portcount chip \<noteq> 0 \<and> bit (inputMask chip) k) \<or>
         (\<exists>j. j < 8 \<and> k = j + 8 * ?p \<and> bit data j)"
    and hh: "h' = h\<lparr>pin_modes := pin_modes h', pin_watches := pin_watches h', stdout := stdout h'\<rparr>"
    and set: "\<forall>j. j < 8 \<longrightarrow>
         pin_modes h' (io chip ! (j + 8 * ?p)) = (if bit data j then INPUT_PULLUP else OUTPUT_LOW) \<and>
         pin_watches h' (io chip ! (j + 8 * ?p)) =
           (if bit data j then Some (io_watch_config chip) else None)"
    and frame: "\<forall>q. (\<forall>j. j < 8 \<longrightarrow> q \<noteq> io chip ! (j + 8 * ?p)) \<longrightarrow>
         pin_modes h' q = pin_modes h q \<and> pin_watches h' q = pin_watches h q"
    by blast
  have mask: "inputMask chip' = (if i2c_portcount chip = 0 then 0 else inputMask chip) OR
                                  push_bit (8 * ?p) (ucast data)"
  proof (rule bit_word_eqI)
    fix k assume "k < LENGTH(16)"
    then have k: "k < 16" by simp
    show "bit (inputMask chip') k \<longleftrightarrow>
          bit ((if i2c_portcount chip = 0 then 0 else inputMask chip) OR push_bit (8 * ?p) (ucast data)) k"
      unfolding written_mask_bits [OF ple k] using m by simp
  qed
  have c': "chip' = chip\<lparr>inputMask := (if i2c_portcount chip = 0 then 0 else inputMask chip) OR
                                  push_bit (8 * ?p) (ucast data),
                    i2c_portcount := 1 - i2c_portcount chip\<rparr>"
    using c unfolding mask [symmetric] .
  have lines: "\<forall>k. k < NUM_GPIO \<longrightarrow>
         pin_modes h' (io chip ! k) =
           (if k div 8 = ?p then (if bit data (k mod 8) then INPUT_PULLUP else OUTPUT_LOW)
            else pin_modes h (io chip ! k)) \<and>
         pin_watches h' (io chip ! k) =
           (if k div 8 = ?p then (if bit data (k mod 8) then Some (io_watch_config chip) else None)
            else pin_watches h (io chip ! k))"
  proof (intro allI impI)
    fix k assume k: "k < NUM_GPIO"
    show "pin_modes h' (io chip ! k) =
           (if k div 8 = ?p then (if bit data (k mod 8) then INPUT_PULLUP else OUTPUT_LOW)
            else pin_modes h (io chip ! k)) \<and>
         pin_watches h' (io chip ! k) =
           (if k div 8 = ?p then (if bit data (k mod 8) then Some (io_watch_config chip) else None)
            else pin_watches h (io chip ! k))"
    proof (cases "k div 8 = ?p")
      case True
      then have keq: "k mod 8 + 8 * ?p = k" by presburger
      have "k mod 8 < 8" by simp
      with set have "pin_modes h' (io chip ! (k mod 8 + 8 * ?p)) =
            (if bit data (k mod 8) then INPUT_PULLUP else OUTPUT_LOW) \<and>
         pin_watches h' (io chip ! (k mod 8 + 8 * ?p)) =
            (if bit data (k mod 8) then Some (io_watch_config chip) else None)"
        by blast
      then show ?thesis unfolding keq using True by simp
    next
      case False
      have "\<forall>j. j < 8 \<longrightarrow> io chip ! k \<noteq> io chip ! (j + 8 * ?p)"
      proof (intro allI impI)
        fix j :: nat assume j: "j < 8"
        then have "j + 8 * ?p < length (io chip)" using ple len by simp
        moreover have "k \<noteq> j + 8 * ?p" using False j by auto
        ultimately show "io chip ! k \<noteq> io chip ! (j + 8 * ?p)"
          using dist k len by (simp add: nth_eq_iff_index_eq)
      qed
      with frame False show ?thesis by simp
    qed
  qed
  have others: "\<forall>q. q \<notin> set (io chip) \<longrightarrow>
         pin_modes h' q = pin_modes h q \<and> pin_watches h' q = pin_watches h q"
  proof (intro allI impI)
    fix q assume q: "q \<notin> set (io chip)"
    have "\<forall>j. j < 8 \<longrightarrow> q \<noteq> io chip ! (j + 8 * ?p)"
    proof (intro allI impI)
      fix j :: nat assume "j < 8"
      then have "j + 8 * ?p < length (io chip)" using ple len by simp
      then have "io chip ! (j + 8 * ?p) \<in> set (io chip)" by simp
      with q show "q \<noteq> io chip ! (j + 8 * ?p)" by metis
    qed
    with frame show "pin_modes h' q = pin_modes h q \<and> pin_watches h' q = pin_watches h q" by simp
  qed
  have lv: "pin_levels h' = pin_levels h" by (subst hh) simp
  from w c' lines others lv show ?thesis by blast
qed

lemma pair_mask_bits:
  assumes "k < 16"
  shows "bit ((ucast (d0 :: 8 word) :: 16 word) OR push_bit 8 (ucast (d1 :: 8 word))) k \<longleftrightarrow>
         (if k < 8 then bit d0 k else bit d1 (k - 8))"
  using assms by (auto simp add: bit_or_iff bit_push_bit_iff bit_ucast_iff dest: bit_imp_le_length)

lemma on_i2c_write_pair:
  assumes ok: "chip_ok chip" and p: "i2c_portcount chip = 0"
  shows "\<exists>h1 h2.
      on_i2c_write (chip, h) d0 = Some (True, chip\<lparr>inputMask := ucast d0, i2c_portcount := 1\<rparr>, h1) \<and>
      on_i2c_write (chip\<lparr>inputMask := ucast d0, i2c_portcount := 1\<rparr>, h1) d1 =
        Some (True, chip\<lparr>inputMask := ucast d0 OR push_bit 8 (ucast d1), i2c_portcount := 0\<rparr>, h2) \<and>
      (\<forall>k. k < NUM_GPIO \<longrightarrow>
         pin_modes h1 (io chip ! k) =
           (if k < 8 then (if bit d0 k then INPUT_PULLUP else OUTPUT_LOW) else pin_modes h (io chip ! k)) \<and>
         pin_watches h1 (io chip ! k) =
           (if k < 8 then (if bit d0 k then Some (io_watch_config chip) else None)
            else pin_watches h (io chip ! k))) \<and>
      (\<forall>k. k < NUM_GPIO \<longrightarrow>
         pin_modes h2 (io chip ! k) =
           (if (if k < 8 then bit d0 k else bit d1 (k - 8)) then INPUT_PULLUP else OUTPUT_LOW) \<and>
         pin_watches h2 (io chip ! k) =
           (if (if k < 8 then bit d0 k else bit d1 (k - 8)) then Some (io_watch_config chip) else None)) \<and>
      (\<forall>q. q \<notin> set (io chip) \<longrightarrow>
         pin_modes h2 q = pin_modes h q \<and> pin_watches h2 q = pin_watches h q) \<and>
      pin_levels h2 = pin_levels h"
proof -
  let ?c1 = "chip\<lparr>inputMask := ucast d0, i2c_portcount := 1\<rparr>"
  have p0: "i2c_portcount chip \<le> 1" using p by simp
  from on_i2c_write_lines [OF ok p0, of h d0]
  obtain h1 where w1: "on_i2c_write (chip, h) d0 = Some (True, ?c1, h1)"
    and l1: "\<forall>k. k < NUM_GPIO \<longrightarrow>
         pin_modes h1 (io chip ! k) =
           (if k div 8 = 0 then (if bit d0 (k mod 8) then INPUT_PULLUP else OUTPUT_LOW)
            else pin_modes h (io chip ! k)) \<and>
         pin_watches h1 (io chip ! k) =
           (if k div 8 = 0 then (if bit d0 (k mod 8) then Some (io_watch_config chip) else None)
            else pin_watches h (io chip ! k))"
    and o1: "\<forall>q. q \<notin> set (io chip) \<longrightarrow>
         pin_modes h1 q = pin_modes h q \<and> pin_watches h1 q = pin_watches h q"
    and v1: "pin_levels h1 = pin_levels h"
    unfolding p by auto
  have ok1: "chip_ok ?c1" using ok by (simp add: chip_ok_def)
  have p1: "i2c_portcount ?c1 \<le> 1" by simp
  from on_i2c_write_lines [OF ok1 p1, of h1 d1]
  obtain h2 where w2: "on_i2c_write (?c1, h1) d1 =
        Some (True, chip\<lparr>inputMask := ucast d0 OR push_bit 8 (ucast d1), i2c_portcount := 0\<rparr>, h2)"
    and l2: "\<forall>k. k < NUM_GPIO \<longrightarrow>
         pin_modes h2 (io chip ! k) =
           (if k div 8 = 1 then (if bit d1 (k mod 8) then INPUT_PULLUP else OUTPUT_LOW)
            else pin_modes h1 (io chip ! k)) \<and>
         pin_watches h2 (io chip ! k) =
           (if k div 8 = 1 then (if bit d1 (k mod 8) then Some (io_watch_config chip) else None)
            else pin_watches h1 (io chip ! k))"
    and o2: "\<forall>q. q \<notin> set (io chip) \<longrightarrow>
         pin_modes h2 q = pin_modes h1 q \<and> pin_watches h2 q = pin_watches h1 q"
    and v2: "pin_levels h2 = pin_levels h1"
    by auto
  have a: "\<forall>k. k < NUM_GPIO \<longrightarrow>
         pin_modes h1 (io chip ! k) =
           (if k < 8 then (if bit d0 k then INPUT_PULLUP else OUTPUT_LOW) else pin_modes h (io chip ! k)) \<and>
         pin_watches h1 (io chip ! k) =
           (if k < 8 then (if bit d0 k then Some (io_watch_config chip) else None)
            else pin_watches h (io chip ! k))"
  proof (intro allI impI)
    fix k :: nat assume k: "k < NUM_GPIO"
    have "k div 8 = 0 \<longleftrightarrow> k < 8" by auto
    moreover have "k < 8 \<Longrightarrow> k mod 8 = k" by simp
    ultimately show "pin_modes h1 (io chip ! k) =
           (if k < 8 then (if bit d0 k then INPUT_PULLUP else OUTPUT_LOW) else pin_modes h (io chip ! k)) \<and>
         pin_watches h1 (io chip ! k) =
           (if k < 8 then (if bit d0 k then Some (io_watch_config chip) else None)
            else pin_watches h (io chip ! k))"
      using l1 k by simp
  qed
  have b: "\<forall>k. k < NUM_GPIO \<longrightarrow>
         pin_modes h2 (io chip ! k) =
           (if (if k < 8 then bit d0 k else bit d1 (k - 8)) then INPUT_PULLUP else OUTPUT_LOW) \<and>
         pin_watches h2 (io chip ! k) =
           (if (if k < 8 then bit d0 k else bit d1 (k - 8)) then Some (io_watch_config chip) else None)"
  proof (intro allI impI)
    fix k :: nat assume k: "k < NUM_GPIO"
    have d: "k div 8 = 1 \<longleftrightarrow> \<not> k < 8" using k by auto
    have m: "\<not> k < 8 \<Longrightarrow> k mod 8 = k - 8" using k by (simp add: mod_if)
    show "pin_modes h2 (io chip ! k) =
           (if (if k < 8 then bit d0 k else bit d1 (k - 8)) then INPUT_PULLUP else OUTPUT_LOW) \<and>
         pin_watches h2 (io chip ! k) =
           (if (if k < 8 then bit d0 k else bit d1 (k - 8)) then Some (io_watch_config chip) else None)"
    proof (cases "k < 8")
      case True
      then show ?thesis using l2 a k d by simp
    next
      case False
      then show ?thesis using l2 k d m by simp
    qed
  qed
  have c: "\<forall>q. q \<notin> set (io chip) \<longrightarrow>
         pin_modes h2 q = pin_modes h q \<and> pin_watches h2 q = pin_watches h q"
    using o1 o2 by simp
  from w1 w2 a b c v1 v2 show ?thesis by auto
qed

lemma example_portcount: "i2c_portcount example_chip = 0"
  by (simp add: example_chip_def)

text \<open>
  Claim C3. On a chip with distinct pin handles and the port counter \<open>p\<close> at 0 or 1,
  a byte write acknowledges; the new mask is the old one, cleared first if \<open>p = 0\<close>,
  with byte \<open>p\<close> OR-ed with the data; line \<open>j + 8 * p\<close> becomes a pulled-up, watched
  input if bit \<open>j\<close> of the data is 1 and an output driven low with no watch if it
  is 0; no other pin changes; the counter flips. So after a write connect the bytes
  \<open>0xFF\<close>, \<open>0x00\<close> make lines 0 to 7 monitored inputs and lines 8 to 15 outputs
  driven low, and a third byte is acknowledged and handled like a first byte: the mask
  becomes that byte and lines 0 to 7 follow its bits.
\<close>

theorem C3_on_i2c_write:
  "(chip_ok chip \<and> i2c_portcount chip \<le> 1 \<longrightarrow>
      (\<exists>chip' h'. on_i2c_write (chip, h) data = Some (True, chip', h') \<and>
         chip' = chip\<lparr>inputMask := (if i2c_portcount chip = 0 then 0 else inputMask chip) OR
                                     push_bit (8 * unat (i2c_portcount chip)) (ucast data),
                       i2c_portcount := 1 - i2c_portcount chip\<rparr> \<and>
         (\<forall>j. j < 8 \<longrightarrow>
            pin_modes h' (io chip ! (j + 8 * unat (i2c_portcount chip))) =
              (if bit data j then INPUT_PULLUP else OUTPUT_LOW) \<and>
            pin_watches h' (io chip ! (j + 8 * unat (i2c_portcount chip))) =
              (if bit data j then Some (io_watch_config chip) else None)) \<and>
         (\<forall>q. (\<forall>j. j < 8 \<longrightarrow> q \<noteq> io chip ! (j + 8 * unat (i2c_portcount chip))) \<longrightarrow>
            pin_modes h' q = pin_modes h q \<and> pin_watches h' q = pin_watches h q))) \<and>
   (chip_ok chip \<longrightarrow>
      (\<exists>h0 h1 h2 h3.
         on_i2c_connect (chip, h) addr False = (True, chip\<lparr>i2c_portcount := 0\<rparr>, h0) \<and>
         on_i2c_write (chip\<lparr>i2c_portcount := 0\<rparr>, h0) 0xFF =
           Some (True, chip\<lparr>inputMask := 0x00FF, i2c_portcount := 1\<rparr>, h1) \<and>
         on_i2c_write (chip\<lparr>inputMask := 0x00FF, i2c_portcount := 1\<rparr>, h1) 0x00 =
           Some (True, chip\<lparr>inputMask := 0x00FF, i2c_portcount := 0\<rparr>, h2) \<and>
         (\<forall>k. k < NUM_GPIO \<longrightarrow>
            pin_modes h2 (io chip ! k) = (if k < 8 then INPUT_PULLUP else OUTPUT_LOW) \<and>
            pin_watches h2 (io chip ! k) = (if k < 8 then Some (io_watch_config chip) else None)) \<and>
         on_i2c_write (chip\<lparr>inputMask := 0x00FF, i2c_portcount := 0\<rparr>, h2) data =
           Some (True, chip\<lparr>inputMask := ucast data, i2c_portcount := 1\<rparr>, h3) \<and>
         (\<forall>k. k < NUM_GPIO \<longrightarrow>
            pin_modes h3 (io chip ! k) =
              (if k < 8 then (if bit data k then INPUT_PULLUP else OUTPUT_LOW) else OUTPUT_LOW))))"
proof (intro conjI impI)
  assume a: "chip_ok chip \<and> i2c_portcount chip \<le> 1"
  then have ok: "chip_ok chip" and p: "i2c_portcount chip \<le> 1" by simp_all
  from ok have len: "length (io chip) = NUM_GPIO" and dist: "distinct (io chip)"
    by (simp_all add: chip_ok_def)
  from on_i2c_write_lines [OF ok p, of h data]
  obtain chip' h' where w: "on_i2c_write (chip, h) data = Some (True, chip', h')"
    and c: "chip' = chip\<lparr>inputMask := (if i2c_portcount chip = 0 then 0 else inputMask chip) OR
                                     push_bit (8 * unat (i2c_portcount chip)) (ucast data),
                       i2c_portcount := 1 - i2c_portcount chip\<rparr>"
    by blast
  from on_i2c_write_char [OF p len dist, of h data] w
  have "(\<forall>j. j < 8 \<longrightarrow>
            pin_modes h' (io chip ! (j + 8 * unat (i2c_portcount chip))) =
              (if bit data j then INPUT_PULLUP else OUTPUT_LOW) \<and>
            pin_watches h' (io chip ! (j + 8 * unat (i2c_portcount chip))) =
              (if bit data j then Some (io_watch_config chip) else None)) \<and>
         (\<forall>q. (\<forall>j. j < 8 \<longrightarrow> q \<noteq> io chip ! (j + 8 * unat (i2c_portcount chip))) \<longrightarrow>
            pin_modes h' q = pin_modes h q \<and> pin_watches h' q = pin_watches h q)"
    by (auto simp del: on_i2c_write.simps)
  with w c show "\<exists>chip' h'. on_i2c_write (chip, h) data = Some (True, chip', h') \<and>
         chip' = chip\<lparr>inputMask := (if i2c_portcount chip = 0 then 0 else inputMask chip) OR
                                     push_bit (8 * unat (i2c_portcount chip)) (ucast data),
                       i2c_portcount := 1 - i2c_portcount chip\<rparr> \<and>
         (\<forall>j. j < 8 \<longrightarrow>
            pin_modes h' (io chip ! (j + 8 * unat (i2c_portcount chip))) =
              (if bit data j then INPUT_PULLUP else OUTPUT_LOW) \<and>
            pin_watches h' (io chip ! (j + 8 * unat (i2c_portcount chip))) =
              (if bit data j then Some (io_watch_config chip) else None)) \<and>
         (\<forall>q. (\<forall>j. j < 8 \<longrightarrow> q \<noteq> io chip ! (j + 8 * unat (i2c_portcount chip))) \<longrightarrow>
            pin_modes h' q = pin_modes h q \<and> pin_watches h' q = pin_watches h q)"
    by blast
next
  assume ok: "chip_ok chip"
  let ?c0 = "chip\<lparr>i2c_portcount := 0\<rparr>"
  let ?c2 = "chip\<lparr>inputMask := 0x00FF, i2c_portcount := 0\<rparr>"
  have ok0: "chip_ok ?c0" and ok2: "chip_ok ?c2" using ok by (simp_all add: chip_ok_def)
  obtain h0 where con: "on_i2c_connect (chip, h) addr False = (True, ?c0, h0)"
    by (simp add: on_i2c_connect_eq del: on_i2c_connect.simps)
  have m: "(ucast (0xFF :: 8 word) :: 16 word) = 0x00FF"
    "(ucast (0xFF :: 8 word) :: 16 word) OR push_bit 8 (ucast (0 :: 8 word)) = 0x00FF"
    by simp_all
  from on_i2c_write_pair [OF ok0, of h0 "0xFF" 0]
  obtain h1 h2 where
    w1: "on_i2c_write (?c0, h0) 0xFF = Some (True, chip\<lparr>inputMask := 0x00FF, i2c_portcount := 1\<rparr>, h1)" and
    w2: "on_i2c_write (chip\<lparr>inputMask := 0x00FF, i2c_portcount := 1\<rparr>, h1) 0x00 = Some (True, ?c2, h2)" and
    l2: "\<forall>k. k < NUM_GPIO \<longrightarrow>
         pin_modes h2 (io chip ! k) =
           (if (if k < 8 then bit (0xFF :: 8 word) k else bit (0 :: 8 word) (k - 8))
            then INPUT_PULLUP else OUTPUT_LOW) \<and>
         pin_watches h2 (io chip ! k) =
           (if (if k < 8 then bit (0xFF :: 8 word) k else bit (0 :: 8 word) (k - 8))
            then Some (io_watch_config chip) else None)"
    unfolding m by (auto simp del: on_i2c_write.simps)
  have ff: "\<And>k. k < 8 \<Longrightarrow> bit (0xFF :: 8 word) k"
  proof -
    fix k :: nat assume k: "k < 8"
    have e: "(0xFF :: 8 word) = mask 8" by (simp add: mask_eq_exp_minus_1)
    show "bit (0xFF :: 8 word) k" unfolding e using k by (simp add: bit_mask_iff)
  qed
  have l2': "\<forall>k. k < NUM_GPIO \<longrightarrow>
            pin_modes h2 (io chip ! k) = (if k < 8 then INPUT_PULLUP else OUTPUT_LOW) \<and>
            pin_watches h2 (io chip ! k) = (if k < 8 then Some (io_watch_config chip) else None)"
    using l2 ff by simp
  have p2: "i2c_portcount ?c2 \<le> 1" by simp
  from on_i2c_write_lines [OF ok2 p2, of h2 data]
  obtain h3 where
    w3: "on_i2c_write (?c2, h2) data = Some (True, chip\<lparr>inputMask := ucast data, i2c_portcount := 1\<rparr>, h3)" and
    l3: "\<forall>k. k < NUM_GPIO \<longrightarrow>
         pin_modes h3 (io chip ! k) =
           (if k div 8 = 0 then (if bit data (k mod 8) then INPUT_PULLUP else OUTPUT_LOW)
            else pin_modes h2 (io chip ! k))"
    by (auto simp del: on_i2c_write.simps)
  have l3': "\<forall>k. k < NUM_GPIO \<longrightarrow>
            pin_modes h3 (io chip ! k) =
              (if k < 8 then (if bit data k then INPUT_PULLUP else OUTPUT_LOW) else OUTPUT_LOW)"
  proof (intro allI impI)
    fix k :: nat assume k: "k < NUM_GPIO"
    have "k div 8 = 0 \<longleftrightarrow> k < 8" by auto
    moreover have "k < 8 \<Longrightarrow> k mod 8 = k" by simp
    ultimately show "pin_modes h3 (io chip ! k) =
              (if k < 8 then (if bit data k then INPUT_PULLUP else OUTPUT_LOW) else OUTPUT_LOW)"
      using l3 l2' k by simp
  qed
  from con w1 w2 l2' w3 l3'
  show "\<exists>h0 h1 h2 h3.
         on_i2c_connect (chip, h) addr False = (True, chip\<lparr>i2c_portcount := 0\<rparr>, h0) \<and>
         on_i2c_write (chip\<lparr>i2c_portcount := 0\<rparr>, h0) 0xFF =
           Some (True, chip\<lparr>inputMask := 0x00FF, i2c_portcount := 1\<rparr>, h1) \<and>
         on_i2c_write (chip\<lparr>inputMask := 0x00FF, i2c_portcount := 1\<rparr>, h1) 0x00 =
           Some (True, chip\<lparr>inputMask := 0x00FF, i2c_portcount := 0\<rparr>, h2) \<and>
         (\<forall>k. k < NUM_GPIO \<longrightarrow>
            pin_modes h2 (io chip ! k) = (if k < 8 then INPUT_PULLUP else OUTPUT_LOW) \<and>
            pin_watches h2 (io chip ! k) = (if k < 8 then Some (io_watch_config chip) else None)) \<and>
         on_i2c_write (chip\<lparr>inputMask := 0x00FF, i2c_portcount := 0\<rparr>, h2) data =
           Some (True, chip\<lparr>inputMask := ucast data, i2c_portcount := 1\<rparr>, h3) \<and>
         (\<forall>k. k < NUM_GPIO \<longrightarrow>
            pin_modes h3 (io chip ! k) =
              (if k < 8 then (if bit data k then INPUT_PULLUP else OUTPUT_LOW) else OUTPUT_LOW))"
    by blast
qed

theorem C3_on_i2c_write_witness:
  "chip_ok example_chip \<and> i2c_portcount example_chip \<le> 1 \<and> (1 :: nat) < 8 \<and> (9 :: nat) < NUM_GPIO \<and>
   (\<exists>chip' h'. on_i2c_write (example_chip, example_host) 0xA5 = Some (True, chip', h') \<and>
      inputMask chip' = 0xA5 \<and> i2c_portcount chip' = 1 \<and>
      pin_modes h' 1 = OUTPUT_LOW \<and> pin_watches h' 1 = None) \<and>
   (\<exists>h0 h1 h2 h3.
      on_i2c_connect (example_chip, example_host) 0x20 False = (True, example_chip, h0) \<and>
      on_i2c_write (example_chip, h0) 0xFF =
        Some (True, example_chip\<lparr>inputMask := 0x00FF, i2c_portcount := 1\<rparr>, h1) \<and>
      on_i2c_write (example_chip\<lparr>inputMask := 0x00FF, i2c_portcount := 1\<rparr>, h1) 0x00 =
        Some (True, example_chip\<lparr>inputMask := 0x00FF\<rparr>, h2) \<and>
      pin_modes h2 1 = INPUT_PULLUP \<and> pin_modes h2 9 = OUTPUT_LOW \<and>
      on_i2c_write (example_chip\<lparr>inputMask := 0x00FF\<rparr>, h2) 0xA5 =
        Some (True, example_chip\<lparr>inputMask := 0xA5, i2c_portcount := 1\<rparr>, h3) \<and>
      pin_modes h3 1 = OUTPUT_LOW \<and> pin_modes h3 9 = OUTPUT_LOW)"
proof -
  note t = C3_on_i2c_write [where chip = example_chip and h = example_host and data = "0xA5"
      and addr = "0x20"]
  have p: "i2c_portcount example_chip \<le> 1" by (simp add: example_portcount)
  have one: "(1 :: nat) < 8" and nine: "(9 :: nat) < NUM_GPIO" by simp_all
  have io: "io example_chip ! 1 = 1" "io example_chip ! 9 = 9" "io example_chip ! (1 + 8 * unat (0 :: 8 word)) = 1"
    by (simp_all add: example_chip_def)
  have b: "\<not> bit (0xA5 :: 8 word) 1"
    by (simp add: bit_iff_odd_drop_bit drop_bit_eq_div)
  have eqs: "example_chip\<lparr>i2c_portcount := 0\<rparr> = example_chip"
    "example_chip\<lparr>inputMask := 0x00FF, i2c_portcount := 0\<rparr> = example_chip\<lparr>inputMask := 0x00FF\<rparr>"
    "example_chip\<lparr>inputMask := ucast (0xA5 :: 8 word), i2c_portcount := 1\<rparr> =
     example_chip\<lparr>inputMask := 0xA5, i2c_portcount := 1\<rparr>"
    by (simp_all add: example_chip_def)
  from t [THEN conjunct1, THEN mp, OF conjI [OF example_chip_ok p]]
  obtain chip' h' where w: "on_i2c_write (example_chip, example_host) 0xA5 = Some (True, chip', h')"
    and c: "chip' = example_chip\<lparr>inputMask := (if i2c_portcount example_chip = 0 then 0 else inputMask example_chip) OR
                                     push_bit (8 * unat (i2c_portcount example_chip)) (ucast (0xA5 :: 8 word)),
                       i2c_portcount := 1 - i2c_portcount example_chip\<rparr>"
    and l: "\<forall>j. j < 8 \<longrightarrow>
            pin_modes h' (io example_chip ! (j + 8 * unat (i2c_portcount example_chip))) =
              (if bit (0xA5 :: 8 word) j then INPUT_PULLUP else OUTPUT_LOW) \<and>
            pin_watches h' (io example_chip ! (j + 8 * unat (i2c_portcount example_chip))) =
              (if bit (0xA5 :: 8 word) j then Some (io_watch_config example_chip) else None)"
    by blast
  have c1: "inputMask chip' = 0xA5" "i2c_portcount chip' = 1"
    by (simp_all add: c example_portcount)
  from l [rule_format, OF one] have c2: "pin_modes h' 1 = OUTPUT_LOW" "pin_watches h' 1 = None"
    unfolding example_portcount io using b by simp_all
  from w c1 c2 have first: "\<exists>chip' h'. on_i2c_write (example_chip, example_host) 0xA5 = Some (True, chip', h') \<and>
      inputMask chip' = 0xA5 \<and> i2c_portcount chip' = 1 \<and>
      pin_modes h' 1 = OUTPUT_LOW \<and> pin_watches h' 1 = None"
    by - (rule exI [of _ chip'], rule exI [of _ h'], simp del: on_i2c_write.simps)
  from t [THEN conjunct2, THEN mp, OF example_chip_ok]
  obtain h0 h1 h2 h3 where
    k0: "on_i2c_connect (example_chip, example_host) 0x20 False = (True, example_chip, h0)" and
    k1: "on_i2c_write (example_chip, h0) 0xFF =
           Some (True, example_chip\<lparr>inputMask := 0x00FF, i2c_portcount := 1\<rparr>, h1)" and
    k2: "on_i2c_write (example_chip\<lparr>inputMask := 0x00FF, i2c_portcount := 1\<rparr>, h1) 0x00 =
           Some (True, example_chip\<lparr>inputMask := 0x00FF\<rparr>, h2)" and
    k3: "\<forall>k. k < NUM_GPIO \<longrightarrow>
            pin_modes h2 (io example_chip ! k) = (if k < 8 then INPUT_PULLUP else OUTPUT_LOW) \<and>
            pin_watches h2 (io example_chip ! k) = (if k < 8 then Some (io_watch_config example_chip) else None)" and
    k4: "on_i2c_write (example_chip\<lparr>inputMask := 0x00FF\<rparr>, h2) 0xA5 =
           Some (True, example_chip\<lparr>inputMask := 0xA5, i2c_portcount := 1\<rparr>, h3)" and
    k5: "\<forall>k. k < NUM_GPIO \<longrightarrow>
            pin_modes h3 (io example_chip ! k) =
              (if k < 8 then (if bit (0xA5 :: 8 word) k then INPUT_PULLUP else OUTPUT_LOW) else OUTPUT_LOW)"
    unfolding eqs by blast
  have "(1 :: nat) < NUM_GPIO" by simp
  from k3 [rule_format, OF this] k3 [rule_format, OF nine] k5 [rule_format, OF this] k5 [rule_format, OF nine]
  have m: "pin_modes h2 1 = INPUT_PULLUP" "pin_modes h2 9 = OUTPUT_LOW"
    "pin_modes h3 1 = OUTPUT_LOW" "pin_modes h3 9 = OUTPUT_LOW"
    unfolding io using b by simp_all
  from k0 k1 k2 k4 m have second: "\<exists>h0 h1 h2 h3.
      on_i2c_connect (example_chip, example_host) 0x20 False = (True, example_chip, h0) \<and>
      on_i2c_write (example_chip, h0) 0xFF =
        Some (True, example_chip\<lparr>inputMask := 0x00FF, i2c_portcount := 1\<rparr>, h1) \<and>
      on_i2c_write (example_chip\<lparr>inputMask := 0x00FF, i2c_portcount := 1\<rparr>, h1) 0x00 =
        Some (True, example_chip\<lparr>inputMask := 0x00FF\<rparr>, h2) \<and>
      pin_modes h2 1 = INPUT_PULLUP \<and> pin_modes h2 9 = OUTPUT_LOW \<and>
      on_i2c_write (example_chip\<lparr>inputMask := 0x00FF\<rparr>, h2) 0xA5 =
        Some (True, example_chip\<lparr>inputMask := 0xA5, i2c_portcount := 1\<rparr>, h3) \<and>
      pin_modes h3 1 = OUTPUT_LOW \<and> pin_modes h3 9 = OUTPUT_LOW"
    by - (rule exI [of _ h0], rule exI [of _ h1], rule exI [of _ h2], rule exI [of _ h3],
          simp del: on_i2c_write.simps on_i2c_connect.simps)
  from example_chip_ok p one nine first second show ?thesis
    by (simp del: on_i2c_write.simps on_i2c_connect.simps)
qed

section \<open>The mask and the pins\<close>

lemma example_io_8: "io example_chip ! 8 = 8" "io example_chip ! 1 = 1" "io example_chip ! 0 = 0"
  by (simp_all add: example_chip_def)

lemma example_first_byte_facts:
  "on_i2c_write (example_chip, example_host) 0xFF = Some (True, example_first_byte)"
  "fst example_first_byte = example_chip\<lparr>inputMask := 0xFF, i2c_portcount := 1\<rparr>"
  "pin_modes (snd example_first_byte) 8 = INPUT_PULLUP"
  "pin_watches (snd example_first_byte) 8 = Some \<lparr>edge = BOTH, pin_change = Chip_input_io_change\<rparr>"
proof -
  from on_i2c_write_pair [OF example_chip_ok example_portcount, of example_host "0xFF" 0]
  obtain h1 where w: "on_i2c_write (example_chip, example_host) 0xFF =
        Some (True, example_chip\<lparr>inputMask := ucast (0xFF :: 8 word), i2c_portcount := 1\<rparr>, h1)"
    and l: "\<forall>k. k < NUM_GPIO \<longrightarrow>
         pin_modes h1 (io example_chip ! k) =
           (if k < 8 then (if bit (0xFF :: 8 word) k then INPUT_PULLUP else OUTPUT_LOW)
            else pin_modes example_host (io example_chip ! k)) \<and>
         pin_watches h1 (io example_chip ! k) =
           (if k < 8 then (if bit (0xFF :: 8 word) k then Some (io_watch_config example_chip) else None)
            else pin_watches example_host (io example_chip ! k))"
    by blast
  have e: "example_first_byte = (example_chip\<lparr>inputMask := 0xFF, i2c_portcount := 1\<rparr>, h1)"
    unfolding example_first_byte_def w by simp
  show "on_i2c_write (example_chip, example_host) 0xFF = Some (True, example_first_byte)"
    unfolding e w by simp
  show "fst example_first_byte = example_chip\<lparr>inputMask := 0xFF, i2c_portcount := 1\<rparr>"
    by (simp add: e)
  from l [rule_format, of 8] show "pin_modes (snd example_first_byte) 8 = INPUT_PULLUP"
    by (simp add: e example_io_8 example_host_def)
  from l [rule_format, of 8]
  show "pin_watches (snd example_first_byte) 8 = Some \<lparr>edge = BOTH, pin_change = Chip_input_io_change\<rparr>"
    by (simp add: e example_io_8 example_host_def)
qed

text \<open>
  Claim C5 says that after every byte write, for every line, the mask bit is set
  exactly if the line is a pulled-up, watched input. After the single byte \<open>0xFF\<close>
  written to the powered-up chip, bit 8 of the mask is clear (the first byte of a pair
  clears the whole mask) while line 8 is still a pulled-up input with its watch
  registered.
\<close>

theorem C5_counterexample:
  "on_i2c_write (example_chip, example_host) 0xFF = Some (True, example_first_byte) \<and>
   \<not> bit (inputMask (fst example_first_byte)) 8 \<and>
   pin_modes (snd example_first_byte) (io (fst example_first_byte) ! 8) = INPUT_PULLUP \<and>
   pin_watches (snd example_first_byte) (io (fst example_first_byte) ! 8) =
     Some (io_watch_config (fst example_first_byte))"
  by (simp add: example_first_byte_facts example_io_8 del: on_i2c_write.simps) (simp add: example_chip_def)

text \<open>
  Claim C5, amended. After the two byte writes of a pair (the port counter at 0
  before the first), for every line \<open>i < 16\<close> the mask bit is set exactly if the
  line is a pulled-up input and exactly if its watch is registered, and clear exactly
  if the line is an output driven low and exactly if it has no watch. After the first
  byte alone this holds for lines 0 to 7 only: bits 8 and up of the mask are clear,
  while lines 8 to 15 keep the mode and the watch they had before the write.
\<close>

theorem C5_mask_matches_pins:
  "chip_ok chip \<and> i2c_portcount chip = 0 \<longrightarrow>
     (\<exists>chip1 h1 chip2 h2.
        on_i2c_write (chip, h) d0 = Some (True, chip1, h1) \<and>
        on_i2c_write (chip1, h1) d1 = Some (True, chip2, h2) \<and>
        (\<forall>i. i < NUM_GPIO \<longrightarrow>
           (bit (inputMask chip2) i \<longleftrightarrow> pin_modes h2 (io chip2 ! i) = INPUT_PULLUP) \<and>
           (bit (inputMask chip2) i \<longleftrightarrow>
              pin_watches h2 (io chip2 ! i) = Some (io_watch_config chip2)) \<and>
           (\<not> bit (inputMask chip2) i \<longleftrightarrow> pin_modes h2 (io chip2 ! i) = OUTPUT_LOW) \<and>
           (\<not> bit (inputMask chip2) i \<longleftrightarrow> pin_watches h2 (io chip2 ! i) = None)) \<and>
        (\<forall>i. i < 8 \<longrightarrow>
           (bit (inputMask chip1) i \<longleftrightarrow> pin_modes h1 (io chip1 ! i) = INPUT_PULLUP) \<and>
           (bit (inputMask chip1) i \<longleftrightarrow>
              pin_watches h1 (io chip1 ! i) = Some (io_watch_config chip1)) \<and>
           (\<not> bit (inputMask chip1) i \<longleftrightarrow> pin_modes h1 (io chip1 ! i) = OUTPUT_LOW) \<and>
           (\<not> bit (inputMask chip1) i \<longleftrightarrow> pin_watches h1 (io chip1 ! i) = None)) \<and>
        (\<forall>i. 8 \<le> i \<longrightarrow> \<not> bit (inputMask chip1) i) \<and>
        (\<forall>i. 8 \<le> i \<and> i < NUM_GPIO \<longrightarrow>
           pin_modes h1 (io chip1 ! i) = pin_modes h (io chip ! i) \<and>
           pin_watches h1 (io chip1 ! i) = pin_watches h (io chip ! i)))"
proof
  assume a: "chip_ok chip \<and> i2c_portcount chip = 0"
  then have ok: "chip_ok chip" and p: "i2c_portcount chip = 0" by simp_all
  let ?c1 = "chip\<lparr>inputMask := ucast d0, i2c_portcount := 1\<rparr>"
  let ?c2 = "chip\<lparr>inputMask := ucast d0 OR push_bit 8 (ucast d1), i2c_portcount := 0\<rparr>"
  from on_i2c_write_pair [OF ok p, of h d0 d1]
  obtain h1 h2 where w1: "on_i2c_write (chip, h) d0 = Some (True, ?c1, h1)"
    and w2: "on_i2c_write (?c1, h1) d1 = Some (True, ?c2, h2)"
    and l1: "\<forall>k. k < NUM_GPIO \<longrightarrow>
         pin_modes h1 (io chip ! k) =
           (if k < 8 then (if bit d0 k then INPUT_PULLUP else OUTPUT_LOW) else pin_modes h (io chip ! k)) \<and>
         pin_watches h1 (io chip ! k) =
           (if k < 8 then (if bit d0 k then Some (io_watch_config chip) else None)
            else pin_watches h (io chip ! k))"
    and l2: "\<forall>k. k < NUM_GPIO \<longrightarrow>
         pin_modes h2 (io chip ! k) =
           (if (if k < 8 then bit d0 k else bit d1 (k - 8)) then INPUT_PULLUP else OUTPUT_LOW) \<and>
         pin_watches h2 (io chip ! k) =
           (if (if k < 8 then bit d0 k else bit d1 (k - 8)) then Some (io_watch_config chip) else None)"
    by blast
  have f2: "\<forall>i. i < NUM_GPIO \<longrightarrow>
           (bit (inputMask ?c2) i \<longleftrightarrow> pin_modes h2 (io ?c2 ! i) = INPUT_PULLUP) \<and>
           (bit (inputMask ?c2) i \<longleftrightarrow>
              pin_watches h2 (io ?c2 ! i) = Some (io_watch_config ?c2)) \<and>
           (\<not> bit (inputMask ?c2) i \<longleftrightarrow> pin_modes h2 (io ?c2 ! i) = OUTPUT_LOW) \<and>
           (\<not> bit (inputMask ?c2) i \<longleftrightarrow> pin_watches h2 (io ?c2 ! i) = None)"
  proof (intro allI impI)
    fix i :: nat assume i: "i < NUM_GPIO"
    have b: "bit (inputMask ?c2) i \<longleftrightarrow> (if i < 8 then bit d0 i else bit d1 (i - 8))"
      using pair_mask_bits [OF i, of d0 d1] by simp
    from l2 i have m: "pin_modes h2 (io chip ! i) =
           (if (if i < 8 then bit d0 i else bit d1 (i - 8)) then INPUT_PULLUP else OUTPUT_LOW)"
      and v: "pin_watches h2 (io chip ! i) =
           (if (if i < 8 then bit d0 i else bit d1 (i - 8)) then Some (io_watch_config chip) else None)"
      by simp_all
    show "(bit (inputMask ?c2) i \<longleftrightarrow> pin_modes h2 (io ?c2 ! i) = INPUT_PULLUP) \<and>
           (bit (inputMask ?c2) i \<longleftrightarrow>
              pin_watches h2 (io ?c2 ! i) = Some (io_watch_config ?c2)) \<and>
           (\<not> bit (inputMask ?c2) i \<longleftrightarrow> pin_modes h2 (io ?c2 ! i) = OUTPUT_LOW) \<and>
           (\<not> bit (inputMask ?c2) i \<longleftrightarrow> pin_watches h2 (io ?c2 ! i) = None)"
      unfolding b by (simp add: m v)
  qed
  have f1: "\<forall>i. i < 8 \<longrightarrow>
           (bit (inputMask ?c1) i \<longleftrightarrow> pin_modes h1 (io ?c1 ! i) = INPUT_PULLUP) \<and>
           (bit (inputMask ?c1) i \<longleftrightarrow>
              pin_watches h1 (io ?c1 ! i) = Some (io_watch_config ?c1)) \<and>
           (\<not> bit (inputMask ?c1) i \<longleftrightarrow> pin_modes h1 (io ?c1 ! i) = OUTPUT_LOW) \<and>
           (\<not> bit (inputMask ?c1) i \<longleftrightarrow> pin_watches h1 (io ?c1 ! i) = None)"
  proof (intro allI impI)
    fix i :: nat assume i: "i < 8"
    have b: "bit (inputMask ?c1) i \<longleftrightarrow> bit d0 i"
      using i by (simp add: bit_ucast_iff)
    from l1 i have m: "pin_modes h1 (io chip ! i) = (if bit d0 i then INPUT_PULLUP else OUTPUT_LOW)"
      and v: "pin_watches h1 (io chip ! i) = (if bit d0 i then Some (io_watch_config chip) else None)"
      by simp_all
    show "(bit (inputMask ?c1) i \<longleftrightarrow> pin_modes h1 (io ?c1 ! i) = INPUT_PULLUP) \<and>
           (bit (inputMask ?c1) i \<longleftrightarrow>
              pin_watches h1 (io ?c1 ! i) = Some (io_watch_config ?c1)) \<and>
           (\<not> bit (inputMask ?c1) i \<longleftrightarrow> pin_modes h1 (io ?c1 ! i) = OUTPUT_LOW) \<and>
           (\<not> bit (inputMask ?c1) i \<longleftrightarrow> pin_watches h1 (io ?c1 ! i) = None)"
      unfolding b by (simp add: m v)
  qed
  have f3: "\<forall>i. 8 \<le> i \<longrightarrow> \<not> bit (inputMask ?c1) i"
  proof (intro allI impI)
    fix i :: nat assume i: "8 \<le> i"
    have "\<not> bit d0 i"
    proof
      assume "bit d0 i"
      then have "i < LENGTH(8)" by (rule bit_imp_le_length)
      with i show False by simp
    qed
    then show "\<not> bit (inputMask ?c1) i" by (simp add: bit_ucast_iff)
  qed
  have f4: "\<forall>i. 8 \<le> i \<and> i < NUM_GPIO \<longrightarrow>
           pin_modes h1 (io ?c1 ! i) = pin_modes h (io chip ! i) \<and>
           pin_watches h1 (io ?c1 ! i) = pin_watches h (io chip ! i)"
  proof (intro allI impI)
    fix i :: nat assume i: "8 \<le> i \<and> i < NUM_GPIO"
    then have "\<not> i < 8" and "i < NUM_GPIO" by simp_all
    with l1 show "pin_modes h1 (io ?c1 ! i) = pin_modes h (io chip ! i) \<and>
           pin_watches h1 (io ?c1 ! i) = pin_watches h (io chip ! i)"
      by simp
  qed
  from w1 w2 f2 f1 f3 f4
  show "\<exists>chip1 h1 chip2 h2.
        on_i2c_write (chip, h) d0 = Some (True, chip1, h1) \<and>
        on_i2c_write (chip1, h1) d1 = Some (True, chip2, h2) \<and>
        (\<forall>i. i < NUM_GPIO \<longrightarrow>
           (bit (inputMask chip2) i \<longleftrightarrow> pin_modes h2 (io chip2 ! i) = INPUT_PULLUP) \<and>
           (bit (inputMask chip2) i \<longleftrightarrow>
              pin_watches h2 (io chip2 ! i) = Some (io_watch_config chip2)) \<and>
           (\<not> bit (inputMask chip2) i \<longleftrightarrow> pin_modes h2 (io chip2 ! i) = OUTPUT_LOW) \<and>
           (\<not> bit (inputMask chip2) i \<longleftrightarrow> pin_watches h2 (io chip2 ! i) = None)) \<and>
        (\<forall>i. i < 8 \<longrightarrow>
           (bit (inputMask chip1) i \<longleftrightarrow> pin_modes h1 (io chip1 ! i) = INPUT_PULLUP) \<and>
           (bit (inputMask chip1) i \<longleftrightarrow>
              pin_watches h1 (io chip1 ! i) = Some (io_watch_config chip1)) \<and>
           (\<not> bit (inputMask chip1) i \<longleftrightarrow> pin_modes h1 (io chip1 ! i) = OUTPUT_LOW) \<and>
           (\<not> bit (inputMask chip1) i \<longleftrightarrow> pin_watches h1 (io chip1 ! i) = None)) \<and>
        (\<forall>i. 8 \<le> i \<longrightarrow> \<not> bit (inputMask chip1) i) \<and>
        (\<forall>i. 8 \<le> i \<and> i < NUM_GPIO \<longrightarrow>
           pin_modes h1 (io chip1 ! i) = pin_modes h (io chip ! i) \<and>
           pin_watches h1 (io chip1 ! i) = pin_watches h (io chip ! i))"
    by - (rule exI [of _ ?c1], rule exI [of _ h1], rule exI [of _ ?c2], rule exI [of _ h2],
          intro conjI, assumption+)
qed

theorem C5_mask_matches_pins_witness:
  "chip_ok example_chip \<and> i2c_portcount example_chip = 0 \<and> (0 :: nat) < NUM_GPIO \<and>
   (8 :: nat) \<le> 8 \<and> (8 :: nat) < NUM_GPIO \<and>
   (\<exists>chip1 h1 chip2 h2.
      on_i2c_write (example_chip, example_host) 0xFF = Some (True, chip1, h1) \<and>
      on_i2c_write (chip1, h1) 0x00 = Some (True, chip2, h2) \<and>
      (bit (inputMask chip2) 0 \<longleftrightarrow> pin_modes h2 (io chip2 ! 0) = INPUT_PULLUP) \<and>
      (\<not> bit (inputMask chip2) 8 \<longleftrightarrow> pin_modes h2 (io chip2 ! 8) = OUTPUT_LOW) \<and>
      (\<not> bit (inputMask chip2) 8 \<longleftrightarrow> pin_watches h2 (io chip2 ! 8) = None) \<and>
      \<not> bit (inputMask chip1) 8 \<and>
      pin_modes h1 (io chip1 ! 8) = INPUT_PULLUP \<and>
      pin_watches h1 (io chip1 ! 8) = Some \<lparr>edge = BOTH, pin_change = Chip_input_io_change\<rparr>)"
proof -
  from C5_mask_matches_pins [where chip = example_chip and h = example_host and ?d0.0 = "0xFF"
      and ?d1.0 = "0x00", THEN mp, OF conjI [OF example_chip_ok example_portcount]]
  obtain chip1 h1 chip2 h2 where
    w1: "on_i2c_write (example_chip, example_host) 0xFF = Some (True, chip1, h1)" and
    w2: "on_i2c_write (chip1, h1) 0x00 = Some (True, chip2, h2)" and
    f: "\<forall>i. i < NUM_GPIO \<longrightarrow>
           (bit (inputMask chip2) i \<longleftrightarrow> pin_modes h2 (io chip2 ! i) = INPUT_PULLUP) \<and>
           (bit (inputMask chip2) i \<longleftrightarrow>
              pin_watches h2 (io chip2 ! i) = Some (io_watch_config chip2)) \<and>
           (\<not> bit (inputMask chip2) i \<longleftrightarrow> pin_modes h2 (io chip2 ! i) = OUTPUT_LOW) \<and>
           (\<not> bit (inputMask chip2) i \<longleftrightarrow> pin_watches h2 (io chip2 ! i) = None)" and
    g: "\<forall>i. 8 \<le> i \<longrightarrow> \<not> bit (inputMask chip1) i" and
    k: "\<forall>i. 8 \<le> i \<and> i < NUM_GPIO \<longrightarrow>
           pin_modes h1 (io chip1 ! i) = pin_modes example_host (io example_chip ! i) \<and>
           pin_watches h1 (io chip1 ! i) = pin_watches example_host (io example_chip ! i)"
    by blast
  have z: "(0 :: nat) < NUM_GPIO" and e: "(8 :: nat) < NUM_GPIO" and e8: "(8 :: nat) \<le> 8"
    by simp_all
  have ex: "pin_modes example_host (io example_chip ! 8) = INPUT_PULLUP"
    "pin_watches example_host (io example_chip ! 8) = Some \<lparr>edge = BOTH, pin_change = Chip_input_io_change\<rparr>"
    by (simp_all add: example_io_8 example_host_def)
  from k [rule_format, OF conjI [OF e8 e]]
  have k8: "pin_modes h1 (io chip1 ! 8) = INPUT_PULLUP"
    "pin_watches h1 (io chip1 ! 8) = Some \<lparr>edge = BOTH, pin_change = Chip_input_io_change\<rparr>"
    unfolding ex by simp_all
  from g [rule_format, OF e8] have g8: "\<not> bit (inputMask chip1) 8" .
  from f [rule_format, OF z] f [rule_format, OF e] w1 w2 g8 k8
  have "\<exists>chip1 h1 chip2 h2.
      on_i2c_write (example_chip, example_host) 0xFF = Some (True, chip1, h1) \<and>
      on_i2c_write (chip1, h1) 0x00 = Some (True, chip2, h2) \<and>
      (bit (inputMask chip2) 0 \<longleftrightarrow> pin_modes h2 (io chip2 ! 0) = INPUT_PULLUP) \<and>
      (\<not> bit (inputMask chip2) 8 \<longleftrightarrow> pin_modes h2 (io chip2 ! 8) = OUTPUT_LOW) \<and>
      (\<not> bit (inputMask chip2) 8 \<longleftrightarrow> pin_watches h2 (io chip2 ! 8) = None) \<and>
      \<not> bit (inputMask chip1) 8 \<and>
      pin_modes h1 (io chip1 ! 8) = INPUT_PULLUP \<and>
      pin_watches h1 (io chip1 ! 8) = Some \<lparr>edge = BOTH, pin_change = Chip_input_io_change\<rparr>"
    by - (rule exI [of _ chip1], rule exI [of _ h1], rule exI [of _ chip2], rule exI [of _ h2],
          blast)
  with example_chip_ok example_portcount z e e8 show ?thesis by (simp del: on_i2c_write.simps)
qed

section \<open>Bits of lines that are not monitored\<close>

lemma example_outputs_facts:
  "\<exists>s1. on_i2c_write (example_chip, example_host) 0x01 = Some (True, s1) \<and>
         on_i2c_write s1 0x00 = Some (True, example_outputs)"
  "fst example_outputs = example_chip\<lparr>inputMask := 1\<rparr>"
proof -
  from on_i2c_write_pair [OF example_chip_ok example_portcount, of example_host 1 0]
  obtain h1 h2 where w1: "on_i2c_write (example_chip, example_host) 0x01 =
        Some (True, example_chip\<lparr>inputMask := ucast (1 :: 8 word), i2c_portcount := 1\<rparr>, h1)"
    and w2: "on_i2c_write (example_chip\<lparr>inputMask := ucast (1 :: 8 word), i2c_portcount := 1\<rparr>, h1) 0 =
        Some (True, example_chip\<lparr>inputMask := ucast (1 :: 8 word) OR push_bit 8 (ucast (0 :: 8 word)),
                                  i2c_portcount := 0\<rparr>, h2)"
    by blast
  have c: "example_chip\<lparr>inputMask := ucast (1 :: 8 word) OR push_bit 8 (ucast (0 :: 8 word)),
                                  i2c_portcount := 0\<rparr> = example_chip\<lparr>inputMask := 1\<rparr>"
    by (simp add: example_chip_def)
  have e: "example_outputs = (example_chip\<lparr>inputMask := 1\<rparr>, h2)"
    unfolding example_outputs_def w1 option.sel snd_conv w2 c ..
  show "\<exists>s1. on_i2c_write (example_chip, example_host) 0x01 = Some (True, s1) \<and>
         on_i2c_write s1 0x00 = Some (True, example_outputs)"
    unfolding e w1 using w2 [unfolded c] by (simp del: on_i2c_write.simps)
  show "fst example_outputs = example_chip\<lparr>inputMask := 1\<rparr>"
    by (simp add: e)
qed

text \<open>
  Claim C6 says that the recomputation leaves the bit of a line whose mask bit is
  clear as it was. With line 0 monitored and lines 1 to 15 driven low, bit 1 of
  \<open>inputValue\<close> is still set from power-up; after line 0 falls and the change
  callback runs, it is clear.
\<close>

theorem C6_counterexample:
  "\<not> bit (inputMask (fst example_outputs)) 1 \<and>
   bit (inputValue (fst example_outputs)) 1 \<and>
   \<not> bit (inputValue (fst (chip_input_io_change
        (fst example_outputs,
         (snd example_outputs)\<lparr>pin_levels := (pin_levels (snd example_outputs))(0 := 0)\<rparr>) 0 0))) 1"
  by (simp add: example_outputs_facts(2) chip_input_io_change_eq readInputsValue_bit
        del: chip_input_io_change.simps)
     (simp add: example_chip_def)

text \<open>
  Claim C6, amended. \<open>readInputsValue\<close> starts from 0, so after a change of a
  monitored line bit \<open>i\<close> of \<open>inputValue\<close> is clear for every line whose mask bit is
  clear; bit \<open>i\<close> is set exactly if \<open>i < 16\<close>, the mask bit is set and the line
  reads high.
\<close>

theorem C6_unmonitored_bits_clear:
  "(\<not> bit (inputMask chip) i \<longrightarrow>
      \<not> bit (inputValue (fst (chip_input_io_change (chip, h) pin val))) i) \<and>
   (bit (inputValue (fst (chip_input_io_change (chip, h) pin val))) i \<longleftrightarrow>
      i < NUM_GPIO \<and> bit (inputMask chip) i \<and> pin_read (io chip ! i) h \<noteq> 0)"
  by (simp add: chip_input_io_change_eq readInputsValue_bit del: chip_input_io_change.simps)

theorem C6_unmonitored_bits_clear_witness:
  "\<not> bit (inputMask (fst example_outputs)) 1 \<and>
   \<not> bit (inputValue (fst (chip_input_io_change example_outputs 0 0))) 1 \<and>
   bit (inputValue (fst (chip_input_io_change (example_chip, example_host) 0 0))) 1"
proof -
  have s: "example_outputs = (fst example_outputs, snd example_outputs)" by simp
  have m: "\<not> bit (inputMask (fst example_outputs)) 1"
    by (simp add: example_outputs_facts(2))
  from C6_unmonitored_bits_clear [where chip = "fst example_outputs" and h = "snd example_outputs"
      and i = 1 and pin = 0 and val = 0, THEN conjunct1] m
  have a: "\<not> bit (inputValue (fst (chip_input_io_change example_outputs 0 0))) 1"
    by (subst s) blast
  have "(1 :: nat) < NUM_GPIO \<and> bit (inputMask example_chip) 1 \<and>
        pin_read (io example_chip ! 1) example_host \<noteq> 0"
    by (simp add: example_chip_def example_host_def pin_read_def)
  with C6_unmonitored_bits_clear [where chip = example_chip and h = example_host
      and i = 1 and pin = 0 and val = 0, THEN conjunct2]
  have b: "bit (inputValue (fst (chip_input_io_change (example_chip, example_host) 0 0))) 1"
    by blast
  from m a b show ?thesis by blast
qed

section \<open>Power-up\<close>

lemma chip_init_addr_loop_frame:
  "fst (chip_init_addr_loop i s) = (fst s)\<lparr>addressBits := addressBits (fst (chip_init_addr_loop i s))\<rparr> \<and>
   snd (chip_init_addr_loop i s) =
     (snd s)\<lparr>pin_modes := pin_modes (snd (chip_init_addr_loop i s)),
              pin_watches := pin_watches (snd (chip_init_addr_loop i s))\<rparr>"
proof (induction "NUM_ADDR_BITS - i" arbitrary: i s)
  case 0
  then have "\<not> i < NUM_ADDR_BITS" by simp
  then show ?case by (subst (1 2 3 4 5) chip_init_addr_loop.simps) simp
next
  case (Suc n)
  then have lt: "i < NUM_ADDR_BITS" and n: "n = NUM_ADDR_BITS - Suc i" by simp_all
  obtain chip h where s: "s = (chip, h)" by (cases s)
  define chip1 where "chip1 = chip\<lparr>addressBits := (addressBits chip)[i := pin_handle h (addrPinNames ! i)]\<rparr>"
  define h1 where "h1 = pin_watch (addressBits chip1 ! i) (watch_addr_config)
      (h\<lparr>pin_modes := (pin_modes h)(pin_handle h (addrPinNames ! i) := INPUT)\<rparr>)"
  have step: "chip_init_addr_loop i (chip, h) = chip_init_addr_loop (Suc i) (chip1, h1)"
    using lt unfolding chip1_def h1_def
    by (subst chip_init_addr_loop.simps) (simp add: pin_init_def Let_def del: chip_init_addr_loop.simps)
  have c1: "chip1 = chip\<lparr>addressBits := addressBits chip1\<rparr>"
    by (simp add: chip1_def)
  have h1: "h1 = h\<lparr>pin_modes := pin_modes h1, pin_watches := pin_watches h1\<rparr>"
    by (simp add: h1_def pin_watch_def)
  from Suc.hyps(1) [OF n, of "(chip1, h1)"]
  have ih1: "fst (chip_init_addr_loop (Suc i) (chip1, h1)) =
      chip1\<lparr>addressBits := addressBits (fst (chip_init_addr_loop (Suc i) (chip1, h1)))\<rparr>"
    and ih2: "snd (chip_init_addr_loop (Suc i) (chip1, h1)) =
      h1\<lparr>pin_modes := pin_modes (snd (chip_init_addr_loop (Suc i) (chip1, h1))),
         pin_watches := pin_watches (snd (chip_init_addr_loop (Suc i) (chip1, h1)))\<rparr>"
    by simp_all
  have a: "fst (chip_init_addr_loop (Suc i) (chip1, h1)) =
      chip\<lparr>addressBits := addressBits (fst (chip_init_addr_loop (Suc i) (chip1, h1)))\<rparr>"
    by (subst ih1, subst c1) simp
  have b: "snd (chip_init_addr_loop (Suc i) (chip1, h1)) =
      h\<lparr>pin_modes := pin_modes (snd (chip_init_addr_loop (Suc i) (chip1, h1))),
        pin_watches := pin_watches (snd (chip_init_addr_loop (Suc i) (chip1, h1)))\<rparr>"
    by (subst ih2, subst h1) simp
  show ?case
    unfolding s step fst_conv snd_conv using a b by (rule conjI)
qed

lemma chip_init_io_loop_frame:
  "fst (chip_init_io_loop i s) = (fst s)\<lparr>io := io (fst (chip_init_io_loop i s))\<rparr> \<and>
   snd (chip_init_io_loop i s) =
     (snd s)\<lparr>pin_modes := pin_modes (snd (chip_init_io_loop i s)),
              pin_watches := pin_watches (snd (chip_init_io_loop i s))\<rparr>"
proof (induction "NUM_GPIO - i" arbitrary: i s)
  case 0
  then have "\<not> i < NUM_GPIO" by simp
  then show ?case by (subst (1 2 3 4 5) chip_init_io_loop.simps) simp
next
  case (Suc n)
  then have lt: "i < NUM_GPIO" and n: "n = NUM_GPIO - Suc i" by simp_all
  obtain chip h where s: "s = (chip, h)" by (cases s)
  define chip1 where "chip1 = chip\<lparr>io := (io chip)[i := pin_handle h (ioPinNames ! i)]\<rparr>"
  define h1 where "h1 = pin_watch (io chip1 ! i) (io_watch_config chip1)
      (h\<lparr>pin_modes := (pin_modes h)(pin_handle h (ioPinNames ! i) := INPUT_PULLUP)\<rparr>)"
  have step: "chip_init_io_loop i (chip, h) = chip_init_io_loop (Suc i) (chip1, h1)"
    using lt unfolding chip1_def h1_def
    by (subst chip_init_io_loop.simps) (simp add: pin_init_def Let_def del: chip_init_io_loop.simps)
  have c1: "chip1 = chip\<lparr>io := io chip1\<rparr>"
    by (simp add: chip1_def)
  have h1: "h1 = h\<lparr>pin_modes := pin_modes h1, pin_watches := pin_watches h1\<rparr>"
    by (simp add: h1_def pin_watch_def)
  from Suc.hyps(1) [OF n, of "(chip1, h1)"]
  have ih1: "fst (chip_init_io_loop (Suc i) (chip1, h1)) =
      chip1\<lparr>io := io (fst (chip_init_io_loop (Suc i) (chip1, h1)))\<rparr>"
    and ih2: "snd (chip_init_io_loop (Suc i) (chip1, h1)) =
      h1\<lparr>pin_modes := pin_modes (snd (chip_init_io_loop (Suc i) (chip1, h1))),
         pin_watches := pin_watches (snd (chip_init_io_loop (Suc i) (chip1, h1)))\<rparr>"
    by simp_all
  have a: "fst (chip_init_io_loop (Suc i) (chip1, h1)) =
      chip\<lparr>io := io (fst (chip_init_io_loop (Suc i) (chip1, h1)))\<rparr>"
    by (subst ih1, subst c1) simp
  have b: "snd (chip_init_io_loop (Suc i) (chip1, h1)) =
      h\<lparr>pin_modes := pin_modes (snd (chip_init_io_loop (Suc i) (chip1, h1))),
        pin_watches := pin_watches (snd (chip_init_io_loop (Suc i) (chip1, h1)))\<rparr>"
    by (subst ih2, subst h1) simp
  show ?case
    unfolding s step fst_conv snd_conv using a b by (rule conjI)
qed

lemma chip_init_addr_loop_fields:
  "address (fst (chip_init_addr_loop i s)) = address (fst s)"
  "nINT (fst (chip_init_addr_loop i s)) = nINT (fst s)"
  "io (fst (chip_init_addr_loop i s)) = io (fst s)"
  "inputMask (fst (chip_init_addr_loop i s)) = inputMask (fst s)"
  "inputValue (fst (chip_init_addr_loop i s)) = inputValue (fst s)"
  "lastReadValue (fst (chip_init_addr_loop i s)) = lastReadValue (fst s)"
  "i2c_dev (fst (chip_init_addr_loop i s)) = i2c_dev (fst s)"
  "i2c_config (fst (chip_init_addr_loop i s)) = i2c_config (fst s)"
  "i2c_portcount (fst (chip_init_addr_loop i s)) = i2c_portcount (fst s)"
  "io_watch_config (fst (chip_init_addr_loop i s)) = io_watch_config (fst s)"
  "chip_state_t.more (fst (chip_init_addr_loop i s)) = chip_state_t.more (fst s)"
  by (subst chip_init_addr_loop_frame [THEN conjunct1], simp)+

lemma chip_init_addr_loop_host:
  "pin_handle (snd (chip_init_addr_loop i s)) = pin_handle (snd s)"
  "pin_levels (snd (chip_init_addr_loop i s)) = pin_levels (snd s)"
  "i2c_devs (snd (chip_init_addr_loop i s)) = i2c_devs (snd s)"
  "stdout (snd (chip_init_addr_loop i s)) = stdout (snd s)"
  by (subst chip_init_addr_loop_frame [THEN conjunct2], simp)+

lemma chip_init_io_loop_fields:
  "address (fst (chip_init_io_loop i s)) = address (fst s)"
  "addressBits (fst (chip_init_io_loop i s)) = addressBits (fst s)"
  "nINT (fst (chip_init_io_loop i s)) = nINT (fst s)"
  "inputMask (fst (chip_init_io_loop i s)) = inputMask (fst s)"
  "inputValue (fst (chip_init_io_loop i s)) = inputValue (fst s)"
  "lastReadValue (fst (chip_init_io_loop i s)) = lastReadValue (fst s)"
  "i2c_dev (fst (chip_init_io_loop i s)) = i2c_dev (fst s)"
  "i2c_config (fst (chip_init_io_loop i s)) = i2c_config (fst s)"
  "i2c_portcount (fst (chip_init_io_loop i s)) = i2c_portcount (fst s)"
  "io_watch_config (fst (chip_init_io_loop i s)) = io_watch_config (fst s)"
  "chip_state_t.more (fst (chip_init_io_loop i s)) = chip_state_t.more (fst s)"
  by (subst chip_init_io_loop_frame [THEN conjunct1], simp)+

lemma chip_init_io_loop_host:
  "pin_handle (snd (chip_init_io_loop i s)) = pin_handle (snd s)"
  "pin_levels (snd (chip_init_io_loop i s)) = pin_levels (snd s)"
  "i2c_devs (snd (chip_init_io_loop i s)) = i2c_devs (snd s)"
  "stdout (snd (chip_init_io_loop i s)) = stdout (snd s)"
  by (subst chip_init_io_loop_frame [THEN conjunct2], simp)+

lemma chip_init_addr_loop_pins:
  assumes "length (addressBits (fst s)) = NUM_ADDR_BITS" "i \<le> NUM_ADDR_BITS"
  shows "addressBits (fst (chip_init_addr_loop i s)) =
           take i (addressBits (fst s)) @ map (pin_handle (snd s)) (drop i addrPinNames)"
  using assms
proof (induction "NUM_ADDR_BITS - i" arbitrary: i s)
  case 0
  then have "i = NUM_ADDR_BITS" by simp
  then show ?case
    using "0.prems"(1) by (subst chip_init_addr_loop.simps) (simp add: addrPinNames_def)
next
  case (Suc n)
  then have lt: "i < NUM_ADDR_BITS" and n: "n = NUM_ADDR_BITS - Suc i" by simp_all
  obtain chip h where s: "s = (chip, h)" by (cases s)
  define p where "p = pin_handle h (addrPinNames ! i)"
  define chip1 where "chip1 = chip\<lparr>addressBits := (addressBits chip)[i := p]\<rparr>"
  define h1 where "h1 = pin_watch (addressBits chip1 ! i) (watch_addr_config)
      (h\<lparr>pin_modes := (pin_modes h)(p := INPUT)\<rparr>)"
  have step: "chip_init_addr_loop i s = chip_init_addr_loop (Suc i) (chip1, h1)"
    using lt unfolding s chip1_def h1_def p_def
    by (subst chip_init_addr_loop.simps) (simp add: pin_init_def Let_def del: chip_init_addr_loop.simps)
  have len: "length (addressBits chip) = NUM_ADDR_BITS" using Suc.prems(1) by (simp add: s)
  have len1: "length (addressBits (fst (chip1, h1))) = NUM_ADDR_BITS"
    using len by (simp add: chip1_def)
  have ph: "pin_handle h1 = pin_handle h" by (simp add: h1_def pin_watch_def)
  from lt have le: "Suc i \<le> NUM_ADDR_BITS" by simp
  from Suc.hyps(1) [OF n len1 le]
  have ih: "addressBits (fst (chip_init_addr_loop (Suc i) (chip1, h1))) =
           take (Suc i) (addressBits chip1) @ map (pin_handle h) (drop (Suc i) addrPinNames)"
    by (simp add: ph)
  have t: "take (Suc i) (addressBits chip1) = take i (addressBits chip) @ [p]"
    using lt len by (simp add: chip1_def take_Suc_conv_app_nth)
  have "length addrPinNames = NUM_ADDR_BITS" by (simp add: addrPinNames_def)
  with lt have d: "drop i addrPinNames = addrPinNames ! i # drop (Suc i) addrPinNames"
    by (simp add: Cons_nth_drop_Suc)
  show ?case
    unfolding step ih t d by (simp add: s p_def)
qed

lemma chip_init_io_loop_pins:
  assumes "length (io (fst s)) = NUM_GPIO" "i \<le> NUM_GPIO"
  shows "io (fst (chip_init_io_loop i s)) =
           take i (io (fst s)) @ map (pin_handle (snd s)) (drop i ioPinNames)"
  using assms
proof (induction "NUM_GPIO - i" arbitrary: i s)
  case 0
  then have "i = NUM_GPIO" by simp
  then show ?case
    using "0.prems"(1) by (subst chip_init_io_loop.simps) (simp add: ioPinNames_def)
next
  case (Suc n)
  then have lt: "i < NUM_GPIO" and n: "n = NUM_GPIO - Suc i" by simp_all
  obtain chip h where s: "s = (chip, h)" by (cases s)
  define p where "p = pin_handle h (ioPinNames ! i)"
  define chip1 where "chip1 = chip\<lparr>io := (io chip)[i := p]\<rparr>"
  define h1 where "h1 = pin_watch (io chip1 ! i) (io_watch_config chip1)
      (h\<lparr>pin_modes := (pin_modes h)(p := INPUT_PULLUP)\<rparr>)"
  have step: "chip_init_io_loop i s = chip_init_io_loop (Suc i) (chip1, h1)"
    using lt unfolding s chip1_def h1_def p_def
    by (subst chip_init_io_loop.simps) (simp add: pin_init_def Let_def del: chip_init_io_loop.simps)
  have len: "length (io chip) = NUM_GPIO" using Suc.prems(1) by (simp add: s)
  have len1: "length (io (fst (chip1, h1))) = NUM_GPIO"
    using len by (simp add: chip1_def)
  have ph: "pin_handle h1 = pin_handle h" by (simp add: h1_def pin_watch_def)
  from lt have le: "Suc i \<le> NUM_GPIO" by simp
  from Suc.hyps(1) [OF n len1 le]
  have ih: "io (fst (chip_init_io_loop (Suc i) (chip1, h1))) =
           take (Suc i) (io chip1) @ map (pin_handle h) (drop (Suc i) ioPinNames)"
    by (simp add: ph)
  have t: "take (Suc i) (io chip1) = take i (io chip) @ [p]"
    using lt len by (simp add: chip1_def take_Suc_conv_app_nth)
  have "length ioPinNames = NUM_GPIO" by (simp add: ioPinNames_def)
  with lt have d: "drop i ioPinNames = ioPinNames ! i # drop (Suc i) ioPinNames"
    by (simp add: Cons_nth_drop_Suc)
  show ?case
    unfolding step ih t d by (simp add: s p_def)
qed

lemma chip_init_facts:
  "\<exists>chip h'. chip_init (Some raw) h = Some (chip, h') \<and>
     inputMask chip = 0xffff \<and> inputValue chip = 0xffff \<and> i2c_portcount chip = 0 \<and>
     pin_modes h' (nINT chip) = INPUT \<and> lastReadValue chip = lastReadValue raw \<and>
     pin_levels h' = pin_levels h"
  by (simp add: split_def Let_def pin_init_def interruptFlagOff_def pin_mode_def printf_def
        i2c_init_def read_address_def chip_init_addr_loop_fields chip_init_io_loop_fields
        chip_init_addr_loop_host chip_init_io_loop_host
        del: chip_init_addr_loop.simps chip_init_io_loop.simps read_address_loop.simps)

text \<open>
  Claim C10. Whatever the allocated block holds and whatever the levels of the
  pins, \<open>chip_init\<close> returns a chip with \<open>inputMask = 0xffff\<close>,
  \<open>inputValue = 0xffff\<close> (the pins are not read into it), the port counter at 0 and
  the interrupt pin an \<open>INPUT\<close> (released). \<open>lastReadValue\<close> is what the allocated
  block held, and it is this value that the first change of a monitored line compares
  the recomputed inputs with.
\<close>

theorem C10_chip_init:
  "\<exists>chip h'. chip_init (Some raw) h = Some (chip, h') \<and>
     inputMask chip = 0xffff \<and> inputValue chip = 0xffff \<and> i2c_portcount chip = 0 \<and>
     pin_modes h' (nINT chip) = INPUT \<and> lastReadValue chip = lastReadValue raw \<and>
     pin_levels h' = pin_levels h \<and>
     (\<forall>pin val. \<exists>chip'' h''. chip_input_io_change (chip, h') pin val = (chip'', h'') \<and>
        pin_modes h'' (nINT chip'') =
          (if readInputsValue chip h' \<noteq> lastReadValue raw then OUTPUT_LOW else INPUT))"
proof -
  from chip_init_facts [of raw h]
  obtain chip h' where i: "chip_init (Some raw) h = Some (chip, h')"
    and f: "inputMask chip = 0xffff" "inputValue chip = 0xffff" "i2c_portcount chip = 0"
      "pin_modes h' (nINT chip) = INPUT" "lastReadValue chip = lastReadValue raw"
      "pin_levels h' = pin_levels h"
    by blast
  have c: "\<forall>pin val. \<exists>chip'' h''. chip_input_io_change (chip, h') pin val = (chip'', h'') \<and>
        pin_modes h'' (nINT chip'') =
          (if readInputsValue chip h' \<noteq> lastReadValue raw then OUTPUT_LOW else INPUT)"
    by (simp add: chip_input_io_change_eq f(5) del: chip_input_io_change.simps)
  from i f c show ?thesis
    by - (rule exI [of _ chip], rule exI [of _ h'], simp del: chip_init.simps chip_input_io_change.simps)
qed

theorem C10_chip_init_witness:
  "\<exists>chip h'.
     chip_init (Some (example_chip\<lparr>inputMask := 0, inputValue := 0, lastReadValue := 0xA5A5,
                                    i2c_portcount := 7\<rparr>))
       (example_host\<lparr>pin_levels := (\<lambda>p. 0)\<rparr>) = Some (chip, h') \<and>
     inputMask chip = 0xffff \<and> inputValue chip = 0xffff \<and> i2c_portcount chip = 0 \<and>
     pin_modes h' (nINT chip) = INPUT \<and> lastReadValue chip = 0xA5A5 \<and>
     pin_levels h' 0 = 0 \<and>
     (\<exists>chip'' h''. chip_input_io_change (chip, h') 0 0 = (chip'', h'') \<and>
        pin_modes h'' (nINT chip'') = OUTPUT_LOW)"
proof -
  let ?raw = "example_chip\<lparr>inputMask := 0, inputValue := 0, lastReadValue := 0xA5A5, i2c_portcount := 7\<rparr>"
  let ?h = "example_host\<lparr>pin_levels := (\<lambda>p. 0)\<rparr>"
  from C10_chip_init [where raw = ?raw and h = ?h]
  obtain chip h' where i: "chip_init (Some ?raw) ?h = Some (chip, h')"
    and f: "inputMask chip = 0xffff" "inputValue chip = 0xffff" "i2c_portcount chip = 0"
      "pin_modes h' (nINT chip) = INPUT" "lastReadValue chip = lastReadValue ?raw"
    and lv: "pin_levels h' = pin_levels ?h"
    and c: "\<forall>pin val. \<exists>chip'' h''. chip_input_io_change (chip, h') pin val = (chip'', h'') \<and>
        pin_modes h'' (nINT chip'') =
          (if readInputsValue chip h' \<noteq> lastReadValue ?raw then OUTPUT_LOW else INPUT)"
    by blast
  have r: "readInputsValue chip h' = 0"
    by (rule bit_word_eqI) (simp add: readInputsValue_bit pin_read_def lv)
  have l: "lastReadValue ?raw = 0xA5A5" by simp
  from c [rule_format, of 0 0]
  have c': "\<exists>chip'' h''. chip_input_io_change (chip, h') 0 0 = (chip'', h'') \<and>
        pin_modes h'' (nINT chip'') = OUTPUT_LOW"
    unfolding r l by (simp del: chip_input_io_change.simps)
  have z: "pin_levels h' 0 = 0" by (simp add: lv)
  from i f c' z show ?thesis
    unfolding l
    by - (rule exI [of _ chip], rule exI [of _ h'], simp del: chip_init.simps chip_input_io_change.simps)
qed

section \<open>The assumptions hold from power-up on\<close>

text \<open>
  \<open>chip_ok\<close> and a port counter of at most 1 are assumed by several theorems above.
  \<open>chip_init\<close> establishes both on a host that gives the 20 pins of the chip distinct
  handles, and every callback keeps them.
\<close>

lemma pin_names_distinct: "distinct (''nINT'' # ioPinNames @ addrPinNames)"
  by (simp add: ioPinNames_def addrPinNames_def)

lemma chip_init_pins:
  assumes "length (io raw) = NUM_GPIO" "length (addressBits raw) = NUM_ADDR_BITS"
  shows "\<exists>chip h'. chip_init (Some raw) h = Some (chip, h') \<and>
     nINT chip = pin_handle h ''nINT'' \<and>
     io chip = map (pin_handle h) ioPinNames \<and>
     addressBits chip = map (pin_handle h) addrPinNames"
  using assms
  by (simp add: split_def Let_def pin_init_def interruptFlagOff_def pin_mode_def printf_def
        i2c_init_def read_address_def chip_init_addr_loop_fields chip_init_io_loop_fields
        chip_init_addr_loop_host chip_init_io_loop_host chip_init_addr_loop_pins chip_init_io_loop_pins
        del: chip_init_addr_loop.simps chip_init_io_loop.simps read_address_loop.simps)

lemma chip_init_chip_ok:
  assumes "length (io raw) = NUM_GPIO" "length (addressBits raw) = NUM_ADDR_BITS"
    and "inj_on (pin_handle h) (set (''nINT'' # ioPinNames @ addrPinNames))"
  shows "\<exists>chip h'. chip_init (Some raw) h = Some (chip, h') \<and> chip_ok chip \<and> i2c_portcount chip \<le> 1"
proof -
  from chip_init_pins [OF assms(1,2), of h]
  obtain chip h' where i: "chip_init (Some raw) h = Some (chip, h')"
    and n: "nINT chip = pin_handle h ''nINT''"
    and io: "io chip = map (pin_handle h) ioPinNames"
    and ab: "addressBits chip = map (pin_handle h) addrPinNames"
    by blast
  from chip_init_facts [of raw h] i have p: "i2c_portcount chip = 0"
    by (auto simp del: chip_init.simps)
  have "nINT chip # io chip @ addressBits chip =
        map (pin_handle h) (''nINT'' # ioPinNames @ addrPinNames)"
    by (simp add: n io ab)
  then have "distinct (nINT chip # io chip @ addressBits chip)"
    using pin_names_distinct assms(3) by (simp only: distinct_map)
  moreover have "length (io chip) = NUM_GPIO" "length (addressBits chip) = NUM_ADDR_BITS"
    by (simp_all add: io ab ioPinNames_def addrPinNames_def)
  ultimately have "chip_ok chip" by (simp add: chip_ok_def)
  with i p show ?thesis by (simp del: chip_init.simps)
qed

lemma callbacks_keep_chip_ok:
  assumes "chip_ok chip" "i2c_portcount chip \<le> 1"
  shows "chip_ok (fst (snd (on_i2c_connect (chip, h) addr rd))) \<and>
         i2c_portcount (fst (snd (on_i2c_connect (chip, h) addr rd))) \<le> 1"
    and "\<exists>b chip' h'. on_i2c_read (chip, h) = Some (b, chip', h') \<and> chip_ok chip' \<and> i2c_portcount chip' \<le> 1"
    and "\<exists>chip' h'. on_i2c_write (chip, h) data = Some (True, chip', h') \<and> chip_ok chip' \<and>
           i2c_portcount chip' \<le> 1"
    and "chip_ok (fst (chip_input_io_change (chip, h) pin val)) \<and>
         i2c_portcount (fst (chip_input_io_change (chip, h) pin val)) \<le> 1"
    and "chip_ok (fst (chip_addr_change (chip, h) pin val)) \<and>
         i2c_portcount (fst (chip_addr_change (chip, h) pin val)) \<le> 1"
proof -
  show "chip_ok (fst (snd (on_i2c_connect (chip, h) addr rd))) \<and>
         i2c_portcount (fst (snd (on_i2c_connect (chip, h) addr rd))) \<le> 1"
    using assms by (simp add: on_i2c_connect_eq chip_ok_def del: on_i2c_connect.simps)
  from on_i2c_read_total [OF assms(2), of h]
  obtain b where r: "on_i2c_read (chip, h) = Some (b, incrementPortCount chip, h)" by blast
  have "chip_ok (incrementPortCount chip)"
    using assms(1) by (simp add: incrementPortCount_def chip_ok_def)
  with r incrementPortCount_le [of chip]
  show "\<exists>b chip' h'. on_i2c_read (chip, h) = Some (b, chip', h') \<and> chip_ok chip' \<and> i2c_portcount chip' \<le> 1"
    by blast
  from on_i2c_write_frame [OF assms(2), of h data]
  obtain chip' h' where w: "on_i2c_write (chip, h) data = Some (True, chip', h')"
    and c: "chip' = chip\<lparr>inputMask := inputMask chip', i2c_portcount := 1 - i2c_portcount chip\<rparr>"
    by blast
  have "chip_ok chip'" using assms(1) by (subst c) (simp add: chip_ok_def)
  moreover have "i2c_portcount chip' \<le> 1"
    using portcount_cases [OF assms(2)] by (subst c) auto
  ultimately show "\<exists>chip' h'. on_i2c_write (chip, h) data = Some (True, chip', h') \<and> chip_ok chip' \<and>
           i2c_portcount chip' \<le> 1"
    using w by blast
  show "chip_ok (fst (chip_input_io_change (chip, h) pin val)) \<and>
         i2c_portcount (fst (chip_input_io_change (chip, h) pin val)) \<le> 1"
    using assms by (simp add: chip_input_io_change_eq chip_ok_def del: chip_input_io_change.simps)
  show "chip_ok (fst (chip_addr_change (chip, h) pin val)) \<and>
         i2c_portcount (fst (chip_addr_change (chip, h) pin val)) \<le> 1"
    using assms by (simp add: chip_addr_change_eq chip_ok_def del: chip_addr_change.simps)
qed

text \<open>
  The chip of the examples is the chip \<open>chip_init\<close> returns on a fresh host with the
  handles of \<open>example_handle\<close> and the levels of \<open>example_host\<close>, when the allocated
  block happens to hold \<open>0xffff\<close> for \<open>lastReadValue\<close>.
\<close>

lemma example_handles:
  "example_handle ''nINT'' = 16" "example_handle ''SCL'' = 20" "example_handle ''SDA'' = 21"
  "map example_handle ioPinNames = [0, 1, 2, 3, 4, 5, 6, 7, 8, 9, 10, 11, 12, 13, 14, 15]"
  "map example_handle addrPinNames = [17, 18, 19]"
  by (simp_all add: example_handle_def ioPinNames_def addrPinNames_def)

lemma example_chip_power_up:
  "\<exists>h'. chip_init (Some (example_chip\<lparr>address := 0, inputMask := 0, inputValue := 0, i2c_portcount := 7\<rparr>))
           \<lparr>pin_handle = example_handle, pin_modes = (\<lambda>p. INPUT), pin_levels = pin_levels example_host,
            pin_watches = (\<lambda>p. None), i2c_devs = [], stdout = []\<rparr> = Some (example_chip, h')"
proof -
  let ?raw = "example_chip\<lparr>address := 0, inputMask := 0, inputValue := 0, i2c_portcount := 7\<rparr>"
  let ?h = "\<lparr>pin_handle = example_handle, pin_modes = (\<lambda>p. INPUT), pin_levels = pin_levels example_host,
            pin_watches = (\<lambda>p. None), i2c_devs = [], stdout = []\<rparr>"
  have len: "length (io ?raw) = NUM_GPIO" "length (addressBits ?raw) = NUM_ADDR_BITS"
    by (simp_all add: example_chip_def)
  from chip_init_pins [OF len, of ?h]
  obtain chip h' where i: "chip_init (Some ?raw) ?h = Some (chip, h')"
    and n: "nINT chip = 16"
    and io: "io chip = [0, 1, 2, 3, 4, 5, 6, 7, 8, 9, 10, 11, 12, 13, 14, 15]"
    and ab: "addressBits chip = [17, 18, 19]"
    by (auto simp add: example_handles simp del: chip_init.simps)
  have c: "chip = fst (the (chip_init (Some ?raw) ?h))" by (simp add: i del: chip_init.simps)
  have lv: "pin_levels example_host 17 = 0" "pin_levels example_host 18 = 0" "pin_levels example_host 19 = 0"
    by (simp_all add: example_host_def)
  have rawlen: "length (addressBits example_chip) = NUM_ADDR_BITS" "length (io example_chip) = NUM_GPIO"
    by (simp_all add: example_chip_def)
  have f: "inputMask chip = 0xffff" "inputValue chip = 0xffff" "i2c_portcount chip = 0"
    "lastReadValue chip = 0xffff"
    using chip_init_facts [of ?raw ?h] i by (auto simp add: example_chip_def simp del: chip_init.simps)
  have rest: "address chip = 0x20 \<and> i2c_dev chip = 0 \<and>
      i2c_config chip = \<lparr>i2c_address = 0x20, scl = 20, sda = 21\<rparr> \<and>
      io_watch_config chip = \<lparr>edge = BOTH, pin_change = Chip_input_io_change\<rparr> \<and>
      chip_state_t.more chip = ()"
    unfolding c
    by (simp add: split_def Let_def pin_init_def interruptFlagOff_def pin_mode_def printf_def
        i2c_init_def read_address_def read_address_loop_unroll pin_read_def
        chip_init_addr_loop_fields chip_init_io_loop_fields
        chip_init_addr_loop_host chip_init_io_loop_host
        chip_init_addr_loop_pins chip_init_io_loop_pins example_handles lv
        rawlen numeral_2_eq_2 [symmetric]
        del: chip_init_addr_loop.simps chip_init_io_loop.simps read_address_loop.simps)
  have "chip = example_chip"
    by (rule chip_state_t.equality) (simp_all add: n io ab f rest, simp_all add: example_chip_def)
  with i show ?thesis by (simp del: chip_init.simps)
qed

end
